theory Spec2Isabelle
  imports
    Complex_Main
    "HOL-Library.Char_ord"
    "HOL-Library.List_Lexorder"
    "HOL-Library.Multiset"
    "HOL-Library.Sublist"
begin

section \<open>Python strings\<close>

text \<open>
  A Python \<open>str\<close> is modelled as a \<open>string\<close>; a \<open>char\<close> stands for the code point
  of the same number, so the model covers text in the range U+0000..U+00FF.
\<close>

definition py_isspace :: "char \<Rightarrow> bool" where
  \<comment> \<open>\<open>str.isspace\<close> on one code point below 256\<close>
  "py_isspace c =
     (let n = (of_char c :: nat)
      in (9 \<le> n \<and> n \<le> 13) \<or> (28 \<le> n \<and> n \<le> 32) \<or> n = 133 \<or> n = 160)"

definition py_strip :: "string \<Rightarrow> string" where
  \<comment> \<open>\<open>s.strip()\<close>\<close>
  "py_strip s = rev (dropWhile py_isspace (rev (dropWhile py_isspace s)))"

fun join :: "string \<Rightarrow> string list \<Rightarrow> string" where
  \<comment> \<open>\<open>sep.join(xs)\<close>\<close>
  "join sep [] = []"
| "join sep [x] = x"
| "join sep (x # y # ys) = x @ sep @ join sep (y # ys)"

definition py_endswith :: "string \<Rightarrow> string \<Rightarrow> bool" where
  "py_endswith s suf = suffix suf s"

definition py_replace_char :: "char \<Rightarrow> string \<Rightarrow> string" where
  \<comment> \<open>\<open>s.replace(c, '')\<close> for a one-character \<open>c\<close>\<close>
  "py_replace_char c s = filter (\<lambda>x. x \<noteq> c) s"

definition py_lower_char :: "char \<Rightarrow> char" where
  \<comment> \<open>\<open>str.lower\<close> on one code point below 256\<close>
  "py_lower_char c =
     (let n = (of_char c :: nat)
      in if (65 \<le> n \<and> n \<le> 90) \<or> (192 \<le> n \<and> n \<le> 222 \<and> n \<noteq> 215)
         then char_of (n + 32) else c)"

definition py_lower :: "string \<Rightarrow> string" where
  "py_lower s = map py_lower_char s"

fun digits :: "nat \<Rightarrow> string" where
  "digits n =
     (if n < 10 then [char_of (48 + n)]
      else digits (n div 10) @ [char_of (48 + n mod 10)])"

declare digits.simps [simp del]

definition py_str_int :: "int \<Rightarrow> string" where
  \<comment> \<open>\<open>str(n)\<close> for an \<open>int\<close>\<close>
  "py_str_int n = (if n < 0 then CHR ''-'' # digits (nat (- n)) else digits (nat n))"

section \<open>schemas.py\<close>

datatype HttpUrl = HttpUrl string

record ArticleSummary =
  pmid :: string
  title :: string
  pub_date :: string
  journal :: string
  authors :: "string list"

record Article = ArticleSummary +
  abstract :: string
  mesh_terms :: "string list"
  doi :: "string option"
  link :: HttpUrl
  volume :: "string option"
  issue :: "string option"
  pages :: "string option"

record SpellCheckResponse =
  original_query :: string
  corrected_query :: "string option"
  has_correction :: bool

definition truthy_opt :: "string option \<Rightarrow> bool" where
  \<comment> \<open>truth value of an \<open>Optional[str]\<close>: \<open>None\<close> and \<open>""\<close> are false\<close>
  "truthy_opt x = (case x of None \<Rightarrow> False | Some s \<Rightarrow> s \<noteq> [])"

definition authors_str :: "string list \<Rightarrow> string" where
  "authors_str as =
     (if as \<noteq> [] then
        (if length as > 6 then join '', '' (take 3 as) @ '', et al''
         else join '', '' as)
      else [])"

definition citation_title :: "string \<Rightarrow> string" where
  "citation_title t =
     (let t1 = py_strip (py_replace_char CHR ''*'' t)
      in if \<not> py_endswith t1 ''.'' then t1 @ ''.'' else t1)"

definition cit_details :: "string option \<Rightarrow> string option \<Rightarrow> string option \<Rightarrow> string" where
  "cit_details vol iss pgs =
     (let c0 = [];
          c1 = (if truthy_opt vol then c0 @ the vol else c0);
          c2 = (if truthy_opt iss then c1 @ ''('' @ the iss @ '')'' else c1);
          c3 = (if truthy_opt pgs then c2 @ '':'' @ the pgs else c2)
      in if c3 \<noteq> [] then c3 @ ''.'' else c3)"

definition to_ama_citation :: "'a Article_scheme \<Rightarrow> string" where
  "to_ama_citation a =
     (let authors_s = authors_str (authors a);
          title_s = citation_title (title a);
          journal_s = (if journal a \<noteq> [] then ''*'' @ py_strip (journal a) @ ''*.'' else []);
          year_s = (if pub_date a \<noteq> [] then pub_date a @ '';'' else []);
          details_s = cit_details (volume a) (issue a) (pages a);
          parts = filter (\<lambda>p. p \<noteq> []) [authors_s, title_s, journal_s, year_s, details_s]
      in join '' '' parts)"


section \<open>Python values and exceptions\<close>

text \<open>
  The values the client handles are decoded JSON documents. \<open>JNull\<close> is Python's \<open>None\<close>,
  a \<open>dict\<close> is an association list in insertion order (its keys are distinct), and numbers
  are the integers.
\<close>

datatype json =
    JNull
  | JBool bool
  | JNum int
  | JStr string
  | JArr "json list"
  | JObj "(string \<times> json) list"

type_synonym params = "(string \<times> json) list"

datatype exn =
    ClientResponseError nat  \<comment> \<open>\<open>aiohttp.ClientResponseError\<close> with its \<open>status\<close>\<close>
  | ClientConnectionError    \<comment> \<open>any other \<open>aiohttp.ClientError\<close> (transport level)\<close>
  | RedisError
  | TimeoutError             \<comment> \<open>\<open>asyncio.TimeoutError\<close>, not an \<open>aiohttp.ClientError\<close>\<close>
  | JSONDecodeError
  | AttributeError
  | KeyError
  | IndexError
  | TypeError
  | ParseError
  | ValidationError

fun is_ClientError :: "exn \<Rightarrow> bool" where
  "is_ClientError (ClientResponseError _) = True"
| "is_ClientError ClientConnectionError = True"
| "is_ClientError _ = False"

fun truthy :: "json \<Rightarrow> bool" where
  "truthy JNull = False"
| "truthy (JBool b) = b"
| "truthy (JNum n) = (n \<noteq> 0)"
| "truthy (JStr s) = (s \<noteq> [])"
| "truthy (JArr xs) = (xs \<noteq> [])"
| "truthy (JObj kvs) = (kvs \<noteq> [])"

definition dict_set :: "params \<Rightarrow> string \<Rightarrow> json \<Rightarrow> params" where
  \<comment> \<open>\<open>d[k] = v\<close>: an existing key keeps its place, a new one goes last\<close>
  "dict_set d k v =
     (if k \<in> set (map fst d) then map (\<lambda>(k', v'). if k' = k then (k', v) else (k', v')) d
      else d @ [(k, v)])"

fun py_get :: "json \<Rightarrow> string \<Rightarrow> json \<Rightarrow> exn + json" where
  \<comment> \<open>\<open>x.get(k, default)\<close>: only a \<open>dict\<close> has the method\<close>
  "py_get (JObj kvs) k d = Inr (case map_of kvs k of Some v \<Rightarrow> v | None \<Rightarrow> d)"
| "py_get _ k d = Inl AttributeError"

fun py_getitem_str :: "json \<Rightarrow> string \<Rightarrow> exn + json" where
  \<comment> \<open>\<open>x[k]\<close> for a \<open>str\<close> key \<open>k\<close>\<close>
  "py_getitem_str (JObj kvs) k = (case map_of kvs k of Some v \<Rightarrow> Inr v | None \<Rightarrow> Inl KeyError)"
| "py_getitem_str _ k = Inl TypeError"

fun py_getitem0 :: "json \<Rightarrow> exn + json" where
  \<comment> \<open>\<open>x[0]\<close>\<close>
  "py_getitem0 (JArr []) = Inl IndexError"
| "py_getitem0 (JArr (x # xs)) = Inr x"
| "py_getitem0 (JStr []) = Inl IndexError"
| "py_getitem0 (JStr (c # cs)) = Inr (JStr [c])"
| "py_getitem0 (JObj kvs) = Inl KeyError"
| "py_getitem0 _ = Inl TypeError"

fun py_iter :: "json \<Rightarrow> exn + json list" where
  \<comment> \<open>the items a \<open>for\<close> loop over the value visits\<close>
  "py_iter (JArr xs) = Inr xs"
| "py_iter (JObj kvs) = Inr (map (\<lambda>(k, v). JStr k) kvs)"
| "py_iter (JStr s) = Inr (map (\<lambda>c. JStr [c]) s)"
| "py_iter _ = Inl TypeError"

fun py_contains_str :: "string \<Rightarrow> json \<Rightarrow> exn + bool" where
  \<comment> \<open>\<open>k in x\<close> for a \<open>str\<close> \<open>k\<close>\<close>
  "py_contains_str k (JObj kvs) = Inr (k \<in> set (map fst kvs))"
| "py_contains_str k (JArr xs) = Inr (JStr k \<in> set xs)"
| "py_contains_str k (JStr s) = Inr (sublist k s)"
| "py_contains_str k _ = Inl TypeError"

fun py_dict_getitem :: "(string \<times> json) list \<Rightarrow> json \<Rightarrow> exn + json" where
  \<comment> \<open>\<open>d[x]\<close> for a \<open>dict\<close> \<open>d\<close> with \<open>str\<close> keys\<close>
  "py_dict_getitem d (JStr k) = (case map_of d k of Some v \<Rightarrow> Inr v | None \<Rightarrow> Inl KeyError)"
| "py_dict_getitem d (JArr xs) = Inl TypeError"
| "py_dict_getitem d (JObj xs) = Inl TypeError"
| "py_dict_getitem d _ = Inl KeyError"

fun py_in_dict :: "json \<Rightarrow> (string \<times> json) list \<Rightarrow> exn + bool" where
  \<comment> \<open>\<open>x in d\<close> for a \<open>dict\<close> \<open>d\<close> with \<open>str\<close> keys: a list or dict is unhashable\<close>
  "py_in_dict (JStr k) kvs = Inr (k \<in> set (map fst kvs))"
| "py_in_dict (JArr xs) kvs = Inl TypeError"
| "py_in_dict (JObj xs) kvs = Inl TypeError"
| "py_in_dict _ kvs = Inr False"

fun json_dumps :: "(string \<Rightarrow> string) \<Rightarrow> bool \<Rightarrow> json \<Rightarrow> string" where
  \<comment> \<open>\<open>json.dumps(x, sort_keys=sk)\<close>; \<open>esc\<close> is the library's encoder of one \<open>str\<close>\<close>
  "json_dumps esc sk JNull = ''null''"
| "json_dumps esc sk (JBool b) = (if b then ''true'' else ''false'')"
| "json_dumps esc sk (JNum n) = py_str_int n"
| "json_dumps esc sk (JStr s) = esc s"
| "json_dumps esc sk (JArr xs) = ''['' @ join '', '' (map (json_dumps esc sk) xs) @ '']''"
| "json_dumps esc sk (JObj kvs) =
     (let items = map (\<lambda>kv. (fst kv, esc (fst kv) @ '': '' @ json_dumps esc sk (snd kv))) kvs
      in ''{'' @ join '', '' (map snd (if sk then sort_key fst items else items)) @ ''}'')"


section \<open>ElementTree\<close>

datatype xml =
  Element (el_tag: string) (el_attrib: "(string \<times> string) list") (el_text: "string option")
    (el_children: "xml list") (el_tail: "string option")

fun iter_elems :: "xml \<Rightarrow> xml list" where
  \<comment> \<open>\<open>Element.iter()\<close>: the element and its descendants in document order\<close>
  "iter_elems (Element t a x cs ta) = Element t a x cs ta # concat (map iter_elems cs)"

definition descendants_named :: "string \<Rightarrow> xml \<Rightarrow> xml list" where
  \<comment> \<open>the path step \<open>.//t\<close>: the descendants with tag \<open>t\<close>, the element itself left out\<close>
  "descendants_named t e = filter (\<lambda>d. el_tag d = t) (concat (map iter_elems (el_children e)))"

definition children_named :: "string \<Rightarrow> xml \<Rightarrow> xml list" where
  \<comment> \<open>the path step \<open>/t\<close>\<close>
  "children_named t e = filter (\<lambda>c. el_tag c = t) (el_children e)"

definition findall_path :: "string \<Rightarrow> string list \<Rightarrow> xml \<Rightarrow> xml list" where
  \<comment> \<open>\<open>e.findall(".//t/c1/c2...")\<close>\<close>
  "findall_path t cs e = foldl (\<lambda>sel c. concat (map (children_named c) sel)) (descendants_named t e) cs"

definition find_first :: "xml list \<Rightarrow> xml option" where
  "find_first xs = (case xs of [] \<Rightarrow> None | x # _ \<Rightarrow> Some x)"

definition findtext :: "xml list \<Rightarrow> string option \<Rightarrow> string option" where
  \<comment> \<open>\<open>findtext(path, default)\<close> on the matches of \<open>path\<close>: a match without text gives \<open>""\<close>\<close>
  "findtext xs dflt =
     (case xs of [] \<Rightarrow> dflt
      | x # _ \<Rightarrow> (case el_text x of None \<Rightarrow> Some [] | Some t \<Rightarrow> Some t))"

fun itertext :: "xml \<Rightarrow> string list" where
  "itertext (Element t a x cs ta) =
     (if truthy_opt x then [the x] else []) @
     concat (map (\<lambda>c. itertext c @ (if truthy_opt (el_tail c) then [the (el_tail c)] else [])) cs)"

section \<open>The client and its surroundings\<close>

text \<open>
  What the client does not contain is a parameter: the settings, the outcome of each call on
  the HTTP session and on the Redis client (the \<open>n\<close>-th call of a kind is told by its
  number), and the library functions \<open>hashlib.md5(s.encode()).hexdigest()\<close>, the JSON
  encoder of one \<open>str\<close>, \<open>json.loads\<close>, \<open>ElementTree.fromstring\<close> and the
  validation of \<open>HttpUrl\<close>. One call is followed from its start to its return: the
  semaphore bounds how many calls run at once and leaves the result of each as it is. The
  state records what a call does to the outside: the requests, the delays, the cache
  traffic and the level of each log line.
\<close>

datatype http_outcome =
    HttpRaise exn                   \<comment> \<open>\<open>session.get\<close> raised\<close>
  | HttpResponse nat "exn + json"   \<comment> \<open>a response with its status, and what decoding its body gives\<close>

record env =
  NCBI_API_KEY :: "string option"
  EUTILS_BASE_URL :: string
  CACHE_TTL :: int
  has_redis :: bool
  redis_get :: "nat \<Rightarrow> string \<Rightarrow> exn + string option"
  redis_set :: "nat \<Rightarrow> string \<Rightarrow> string \<Rightarrow> int \<Rightarrow> exn option"
  http_get :: "nat \<Rightarrow> string \<Rightarrow> params \<Rightarrow> string \<Rightarrow> http_outcome"
  md5_hexdigest :: "string \<Rightarrow> string"
  json_encode_str :: "string \<Rightarrow> string"
  json_loads :: "string \<Rightarrow> exn + json"
  xml_fromstring :: "string \<Rightarrow> exn + xml"
  valid_http_url :: "string \<Rightarrow> bool"

datatype loglevel = INFO | WARNING | ERROR

record state =
  requests :: "(string \<times> params) list"          \<comment> \<open>the GETs issued, in order\<close>
  sleeps :: "real list"                              \<comment> \<open>the delays slept, in order\<close>
  cache_gets :: "string list"                        \<comment> \<open>the keys looked up in the cache\<close>
  cache_sets :: "(string \<times> string \<times> int) list"  \<comment> \<open>the entries written to the cache\<close>
  logs :: "loglevel list"

definition log_msg :: "loglevel \<Rightarrow> state \<Rightarrow> state" where
  "log_msg l s = s\<lparr>logs := logs s @ [l]\<rparr>"

definition BASE_PARAMS :: params where
  "BASE_PARAMS = [(''db'', JStr ''pubmed'')]"

definition MAX_RETRIES :: nat where
  "MAX_RETRIES = 4"

definition RETRY_DELAY :: real where
  "RETRY_DELAY = 2"

definition cache_key_string :: "env \<Rightarrow> string \<Rightarrow> params \<Rightarrow> string" where
  "cache_key_string env url params = url @ ''?'' @ json_dumps (json_encode_str env) True (JObj params)"

definition generate_cache_key :: "env \<Rightarrow> string \<Rightarrow> params \<Rightarrow> string" where
  "generate_cache_key env url params =
     ''pubmed_cache:'' @ md5_hexdigest env (cache_key_string env url params)"

definition cache_lookup :: "env \<Rightarrow> string \<Rightarrow> state \<Rightarrow> (exn + json option) \<times> state" where
  \<comment> \<open>the cache read of \<open>_make_request\<close>: \<open>Some v\<close> is returned to the caller at once\<close>
  "cache_lookup env cache_key s =
     (if has_redis env then
        (let s1 = s\<lparr>cache_gets := cache_gets s @ [cache_key]\<rparr>
         in case redis_get env (length (cache_gets s)) cache_key of
              Inl e \<Rightarrow> if e = RedisError then (Inr None, log_msg ERROR s1) else (Inl e, s1)
            | Inr cached_result \<Rightarrow>
                if truthy_opt cached_result then
                  (case json_loads env (the cached_result) of
                     Inl e \<Rightarrow>
                       if e = RedisError then (Inr None, log_msg ERROR (log_msg INFO s1))
                       else (Inl e, log_msg INFO s1)
                   | Inr v \<Rightarrow> (Inr (Some v), log_msg INFO s1))
                else (Inr None, s1))
      else (Inr None, s))"

definition cache_store :: "env \<Rightarrow> string \<Rightarrow> json \<Rightarrow> state \<Rightarrow> exn option \<times> state" where
  \<comment> \<open>the cache write of \<open>_make_request\<close>; \<open>Some e\<close> is an exception that leaves it\<close>
  "cache_store env cache_key result s =
     (if has_redis env then
        (let v = json_dumps (json_encode_str env) False result;
             s1 = s\<lparr>cache_sets := cache_sets s @ [(cache_key, v, CACHE_TTL env)]\<rparr>
         in case redis_set env (length (cache_sets s)) cache_key v (CACHE_TTL env) of
              None \<Rightarrow> (None, log_msg INFO s1)
            | Some e \<Rightarrow> if e = RedisError then (None, log_msg ERROR s1) else (Some e, s1))
      else (None, s))"

definition attempt_request ::
  "env \<Rightarrow> string \<Rightarrow> params \<Rightarrow> string \<Rightarrow> string \<Rightarrow> state \<Rightarrow> (exn + json) \<times> state" where
  \<comment> \<open>the body of the \<open>try\<close> in the retry loop\<close>
  "attempt_request env url params response_type cache_key s =
     (let s1 = s\<lparr>requests := requests s @ [(url, params)]\<rparr>
      in case http_get env (length (requests s)) url params response_type of
           HttpRaise e \<Rightarrow> (Inl e, s1)
         | HttpResponse status decoded \<Rightarrow>
             if status \<ge> 400 then (Inl (ClientResponseError status), s1)
             else (case decoded of
                     Inl e \<Rightarrow> (Inl e, s1)
                   | Inr result \<Rightarrow>
                       (case cache_store env cache_key result s1 of
                          (Some e, s2) \<Rightarrow> (Inl e, s2)
                        | (None, s2) \<Rightarrow> (Inr result, s2))))"

fun is_transient :: "exn \<Rightarrow> bool" where
  "is_transient (ClientResponseError status) = (status = 429 \<or> status \<ge> 500)"
| "is_transient _ = False"

fun retry_loop ::
  "env \<Rightarrow> string \<Rightarrow> params \<Rightarrow> string \<Rightarrow> string \<Rightarrow> nat list \<Rightarrow> state \<Rightarrow> (exn + json) \<times> state" where
  \<comment> \<open>\<open>for attempt in range(MAX_RETRIES)\<close> and the two lines after it\<close>
  "retry_loop env url params response_type cache_key [] s = (Inr JNull, log_msg ERROR s)"
| "retry_loop env url params response_type cache_key (attempt # rest) s =
     (case attempt_request env url params response_type cache_key s of
        (Inr result, s1) \<Rightarrow> (Inr result, s1)
      | (Inl e, s1) \<Rightarrow>
          if is_ClientError e then
            (if is_transient e then
               (let delay = RETRY_DELAY ^ attempt;
                    s2 = log_msg WARNING s1;
                    s3 = (if attempt < MAX_RETRIES - 1 then s2\<lparr>sleeps := sleeps s2 @ [delay]\<rparr> else s2)
                in retry_loop env url params response_type cache_key rest s3)
             else (Inr JNull, log_msg ERROR (log_msg ERROR s1)))
          else (Inl e, s1))"

definition inject_api_key :: "env \<Rightarrow> params \<Rightarrow> params" where
  \<comment> \<open>\<open>if self._api_key: params["api_key"] = self._api_key\<close>, on the caller's dict\<close>
  "inject_api_key env params =
     (if truthy_opt (NCBI_API_KEY env)
      then dict_set params ''api_key'' (JStr (the (NCBI_API_KEY env)))
      else params)"

definition make_request ::
  "env \<Rightarrow> string \<Rightarrow> params \<Rightarrow> string \<Rightarrow> state \<Rightarrow> ((exn + json) \<times> params) \<times> state" where
  \<comment> \<open>\<open>_make_request\<close>; the second component is the caller's \<open>params\<close> dict after the call\<close>
  "make_request env url params response_type s =
     (let params1 = inject_api_key env params;
          cache_key = generate_cache_key env url params1
      in case cache_lookup env cache_key s of
           (Inl e, s1) \<Rightarrow> ((Inl e, params1), s1)
         | (Inr (Some v), s1) \<Rightarrow> ((Inr v, params1), s1)
         | (Inr None, s1) \<Rightarrow>
             (case retry_loop env url params1 response_type cache_key [0..<MAX_RETRIES] (log_msg INFO s1) of
                (r, s2) \<Rightarrow> ((r, params1), s2)))"


section \<open>The gateway operations\<close>

definition bind_exn :: "exn + 'a \<Rightarrow> ('a \<Rightarrow> exn + 'b) \<Rightarrow> exn + 'b" where
  \<comment> \<open>sequencing: an exception raised by the first step skips the second\<close>
  "bind_exn r f = (case r of Inl e \<Rightarrow> Inl e | Inr x \<Rightarrow> f x)"

definition dict_update :: "params \<Rightarrow> params \<Rightarrow> params" where
  \<comment> \<open>\<open>{**d, k1: v1, ...}\<close> and \<open>d.update({k1: v1, ...})\<close>\<close>
  "dict_update d kvs = foldl (\<lambda>d kv. dict_set d (fst kv) (snd kv)) d kvs"

subsection \<open>\<open>search_pubmed_ids\<close>\<close>

definition is_ascii_letter :: "char \<Rightarrow> bool" where
  \<comment> \<open>the character class \<open>[A-Za-z]\<close>\<close>
  "is_ascii_letter c =
     (let n = (of_char c :: nat) in (65 \<le> n \<and> n \<le> 90) \<or> (97 \<le> n \<and> n \<le> 122))"

definition tag_at :: "string \<Rightarrow> bool" where
  \<comment> \<open>the pattern \<open>\[[A-Za-z]{2,4}\]\<close> matches at the start of the string\<close>
  "tag_at s =
     (case s of
        [] \<Rightarrow> False
      | c # rest \<Rightarrow>
          c = CHR ''['' \<and>
          list_ex (\<lambda>k. k < length rest \<and> list_all is_ascii_letter (take k rest) \<and> rest ! k = CHR '']'')
            [2, 3, 4])"

fun re_search_tag :: "string \<Rightarrow> bool" where
  \<comment> \<open>\<open>re.search(r'\[[A-Za-z]{2,4}\]', s)\<close> finds a match\<close>
  "re_search_tag [] = False"
| "re_search_tag (c # cs) = (tag_at (c # cs) \<or> re_search_tag cs)"

definition final_query :: "string \<Rightarrow> string option \<Rightarrow> string" where
  "final_query query search_field =
     (if truthy_opt search_field \<and> \<not> re_search_tag query
      then ''('' @ query @ '')'' @ the search_field
      else query)"

definition search_params ::
  "string \<Rightarrow> string option \<Rightarrow> int \<Rightarrow> string option \<Rightarrow> string option \<Rightarrow> params" where
  "search_params query search_field max_results start_date end_date =
     (let params = dict_update BASE_PARAMS
            [(''term'', JStr (final_query query search_field)), (''retmode'', JStr ''json''),
             (''retmax'', JStr (py_str_int max_results)), (''sort'', JStr ''date'')];
          params1 = (if truthy_opt start_date
                     then dict_update params
                            [(''datetype'', JStr ''pdat''), (''mindate'', JStr (the start_date))]
                     else params);
          params2 = (if truthy_opt end_date
                     then dict_update params1
                            [(''datetype'', JStr ''pdat''), (''maxdate'', JStr (the end_date))]
                     else params1)
      in params2)"

definition idlist_of :: "json \<Rightarrow> exn + json" where
  \<comment> \<open>\<open>data.get("esearchresult", {}).get("idlist", []) if data else []\<close>\<close>
  "idlist_of data =
     (if truthy data
      then bind_exn (py_get data ''esearchresult'' (JObj [])) (\<lambda>r. py_get r ''idlist'' (JArr []))
      else Inr (JArr []))"

definition search_pubmed_ids ::
  "env \<Rightarrow> string \<Rightarrow> string option \<Rightarrow> int \<Rightarrow> string option \<Rightarrow> string option \<Rightarrow> state
     \<Rightarrow> (exn + json) \<times> state" where
  "search_pubmed_ids env query search_field max_results start_date end_date s =
     (case make_request env (EUTILS_BASE_URL env @ ''esearch.fcgi'')
             (search_params query search_field max_results start_date end_date) ''json'' s of
        ((Inl e, _), s1) \<Rightarrow> (Inl e, s1)
      | ((Inr data, _), s1) \<Rightarrow> (idlist_of data, s1))"

subsection \<open>\<open>check_spelling\<close>\<close>

definition spell_response :: "string \<Rightarrow> json \<Rightarrow> exn + SpellCheckResponse" where
  \<comment> \<open>the last line of \<open>check_spelling\<close>: \<open>lower\<close> exists on a \<open>str\<close> only, and the model
      accepts \<open>None\<close> or a \<open>str\<close> as \<open>corrected_query\<close>\<close>
  "spell_response query corrected =
     bind_exn
       (if truthy corrected
        then (case corrected of
                JStr c \<Rightarrow> Inr (py_lower c \<noteq> py_lower query)
              | _ \<Rightarrow> Inl AttributeError)
        else Inr False)
       (\<lambda>hc. case corrected of
                JNull \<Rightarrow> Inr \<lparr>original_query = query, corrected_query = None, has_correction = hc\<rparr>
              | JStr c \<Rightarrow> Inr \<lparr>original_query = query, corrected_query = Some c, has_correction = hc\<rparr>
              | _ \<Rightarrow> Inl ValidationError)"

definition check_spelling :: "env \<Rightarrow> string \<Rightarrow> state \<Rightarrow> (exn + SpellCheckResponse) \<times> state" where
  "check_spelling env query s =
     (let params = dict_update BASE_PARAMS [(''term'', JStr query), (''retmode'', JStr ''json'')]
      in case make_request env (EUTILS_BASE_URL env @ ''espell.fcgi'') params ''json'' s of
           ((Inl e, _), s1) \<Rightarrow> (Inl e, s1)
         | ((Inr data, _), s1) \<Rightarrow>
             if \<not> truthy data
             then (Inr \<lparr>original_query = query, corrected_query = None, has_correction = False\<rparr>, s1)
             else (bind_exn (py_get data ''es-result'' (JObj []))
                     (\<lambda>r. bind_exn (py_get r ''corrected'' JNull) (spell_response query)), s1))"

subsection \<open>\<open>get_summaries\<close>\<close>

fun str_of :: "json \<Rightarrow> string option" where
  "str_of (JStr s) = Some s"
| "str_of _ = None"

definition new_ArticleSummary ::
  "json \<Rightarrow> json \<Rightarrow> json \<Rightarrow> json \<Rightarrow> json list \<Rightarrow> exn + ArticleSummary" where
  \<comment> \<open>the constructor with its validation: every field declared \<open>str\<close> takes a \<open>str\<close> only\<close>
  "new_ArticleSummary p t d j as =
     (if str_of p \<noteq> None \<and> str_of t \<noteq> None \<and> str_of d \<noteq> None \<and> str_of j \<noteq> None
         \<and> list_all (\<lambda>a. str_of a \<noteq> None) as
      then Inr \<lparr>pmid = the (str_of p), title = the (str_of t), pub_date = the (str_of d),
                journal = the (str_of j), authors = map (\<lambda>a. the (str_of a)) as\<rparr>
      else Inl ValidationError)"

fun author_names :: "json list \<Rightarrow> exn + json list" where
  \<comment> \<open>\<open>[a.get("name", "") for a in ...]\<close>\<close>
  "author_names [] = Inr []"
| "author_names (a # as) =
     bind_exn (py_get a ''name'' (JStr [])) (\<lambda>n. bind_exn (author_names as) (\<lambda>ns. Inr (n # ns)))"

definition summary_of_info :: "json \<Rightarrow> exn + ArticleSummary" where
  \<comment> \<open>the body of the \<open>try\<close> in the loop of \<open>get_summaries\<close>\<close>
  "summary_of_info info =
     bind_exn (py_get info ''uid'' (JStr [])) (\<lambda>p.
     bind_exn (py_get info ''title'' (JStr ''No Title'')) (\<lambda>t.
     bind_exn (py_get info ''pubdate'' (JStr [])) (\<lambda>d.
     bind_exn (py_get info ''source'' (JStr [])) (\<lambda>j.
     bind_exn (py_get info ''authors'' (JArr [])) (\<lambda>au.
     bind_exn (py_iter au) (\<lambda>items.
     bind_exn (author_names items) (\<lambda>names.
     new_ArticleSummary p t d j names)))))))"

fun summaries_loop ::
  "(string \<times> json) list \<Rightarrow> json list \<Rightarrow> ArticleSummary list \<Rightarrow> state
     \<Rightarrow> (exn + ArticleSummary list) \<times> state" where
  \<comment> \<open>\<open>for pmid in result.get("uids", [])\<close>, with the list \<open>summaries\<close> built so far;
      the loop variable is \<open>uid\<close> here\<close>
  "summaries_loop result [] summaries s = (Inr summaries, s)"
| "summaries_loop result (uid # rest) summaries s =
     (case py_in_dict uid result of
        Inl e \<Rightarrow> (Inl e, s)
      | Inr False \<Rightarrow> summaries_loop result rest summaries s
      | Inr True \<Rightarrow>
          (case bind_exn (py_dict_getitem result uid) summary_of_info of
             Inr summary \<Rightarrow> summaries_loop result rest (summaries @ [summary]) s
           | Inl e \<Rightarrow>
               if e = ValidationError then summaries_loop result rest summaries (log_msg WARNING s)
               else (Inl e, s)))"

definition get_summaries ::
  "env \<Rightarrow> string list \<Rightarrow> state \<Rightarrow> (exn + ArticleSummary list) \<times> state" where
  "get_summaries env pmids s =
     (if pmids = [] then (Inr [], s)
      else
        (let params = dict_update BASE_PARAMS [(''id'', JStr (join '','' pmids)), (''retmode'', JStr ''json'')]
         in case make_request env (EUTILS_BASE_URL env @ ''esummary.fcgi'') params ''json'' s of
              ((Inl e, _), s1) \<Rightarrow> (Inl e, s1)
            | ((Inr data, _), s1) \<Rightarrow>
                (case (if truthy data then py_contains_str ''result'' data else Inr False) of
                   Inl e \<Rightarrow> (Inl e, s1)
                 | Inr False \<Rightarrow> (Inr [], s1)
                 | Inr True \<Rightarrow>
                     (case py_getitem_str data ''result'' of
                        Inl e \<Rightarrow> (Inl e, s1)
                      | Inr (JObj result) \<Rightarrow>
                          (case py_iter (case map_of result ''uids'' of Some v \<Rightarrow> v | None \<Rightarrow> JArr []) of
                             Inl e \<Rightarrow> (Inl e, s1)
                           | Inr uids \<Rightarrow> summaries_loop result uids [] s1)
                      | Inr _ \<Rightarrow> (Inl AttributeError, s1)))))"

subsection \<open>\<open>find_related_ids\<close>\<close>

definition linkset_handles :: "json \<Rightarrow> exn + json \<times> json" where
  \<comment> \<open>\<open>linkset\<close>, \<open>webenv\<close> and \<open>query_key\<close> as \<open>find_related_ids\<close> reads them\<close>
  "linkset_handles data =
     bind_exn (bind_exn (py_getitem_str data ''linksets'') py_getitem0) (\<lambda>linkset.
     bind_exn (py_get linkset ''webenv'' JNull) (\<lambda>webenv.
     bind_exn (bind_exn (bind_exn (py_getitem_str linkset ''linksetdbs'') py_getitem0)
                 (\<lambda>db. py_get db ''querykey'' JNull)) (\<lambda>query_key.
     Inr (webenv, query_key))))"

definition find_related_ids :: "env \<Rightarrow> string \<Rightarrow> int \<Rightarrow> state \<Rightarrow> (exn + json) \<times> state" where
  "find_related_ids env source_pmid max_results s =
     (let params = dict_update BASE_PARAMS
            [(''id'', JStr source_pmid), (''linkname'', JStr ''pubmed_pubmed''),
             (''cmd'', JStr ''neighbor_history'')]
      in case make_request env (EUTILS_BASE_URL env @ ''elink.fcgi'') params ''json'' s of
           ((Inl e, _), s1) \<Rightarrow> (Inl e, s1)
         | ((Inr data, _), s1) \<Rightarrow>
             (case (if truthy data then bind_exn (py_get data ''linksets'' JNull) (\<lambda>l. Inr (truthy l))
                    else Inr False) of
                Inl e \<Rightarrow> (Inl e, s1)
              | Inr False \<Rightarrow> (Inr (JArr []), s1)
              | Inr True \<Rightarrow>
                  (case linkset_handles data of
                     Inl e \<Rightarrow> (Inl e, s1)
                   | Inr (webenv, query_key) \<Rightarrow>
                       (let fetch_params = dict_update BASE_PARAMS
                              [(''query_key'', query_key), (''WebEnv'', webenv),
                               (''retmode'', JStr ''json''), (''retmax'', JStr (py_str_int max_results))]
                        in case make_request env (EUTILS_BASE_URL env @ ''esearch.fcgi'')
                                  fetch_params ''json'' s1 of
                             ((Inl e, _), s2) \<Rightarrow> (Inl e, s2)
                           | ((Inr fetch_data, _), s2) \<Rightarrow> (idlist_of fetch_data, s2)))))"

subsection \<open>\<open>fetch_article_details\<close>\<close>

definition findtext_opt :: "xml list \<Rightarrow> string option" where
  \<comment> \<open>\<open>findtext(path)\<close>, whose default is \<open>None\<close>\<close>
  "findtext_opt xs = findtext xs None"

definition findtext_str :: "xml list \<Rightarrow> string \<Rightarrow> string" where
  \<comment> \<open>\<open>findtext(path, default)\<close> with a \<open>str\<close> default\<close>
  "findtext_str xs dflt = (case findtext xs (Some dflt) of Some t \<Rightarrow> t | None \<Rightarrow> dflt)"

definition abstract_part :: "xml \<Rightarrow> string option" where
  \<comment> \<open>one round of the loop over the \<open>AbstractText\<close> nodes; \<open>None\<close> is its \<open>continue\<close>\<close>
  "abstract_part node =
     (let full_text = py_strip (concat (itertext node))
      in if full_text = [] then None
         else (let label = map_of (el_attrib node) ''Label''
               in if truthy_opt label
                  then Some (''**'' @ py_strip (the label) @ '':** '' @ full_text)
                  else Some full_text))"

fun abstract_loop :: "xml list \<Rightarrow> string list \<Rightarrow> string list" where
  "abstract_loop [] abstract_parts = abstract_parts"
| "abstract_loop (node # rest) abstract_parts =
     (case abstract_part node of
        None \<Rightarrow> abstract_loop rest abstract_parts
      | Some part \<Rightarrow> abstract_loop rest (abstract_parts @ [part]))"

definition abstract_of :: "xml \<Rightarrow> string" where
  "abstract_of article_node =
     (let joined = join [CHR 0x0A, CHR 0x0A]
                     (abstract_loop (findall_path ''Abstract'' [''AbstractText''] article_node) [])
      in if joined \<noteq> [] then joined else ''Abstract not available.'')"

definition article_link :: "string \<Rightarrow> string" where
  "article_link p = ''https://pubmed.ncbi.nlm.nih.gov/'' @ p @ ''/''"

definition parse_article :: "env \<Rightarrow> string \<Rightarrow> xml \<Rightarrow> exn + Article option" where
  \<comment> \<open>\<open>fetch_article_details\<close> from \<open>root.find\<close> to the construction of the \<open>Article\<close>\<close>
  "parse_article env p root_node =
     (case find_first (descendants_named ''PubmedArticle'' root_node) of
        None \<Rightarrow> Inr None
      | Some article_node \<Rightarrow>
          (let title_node = find_first (descendants_named ''ArticleTitle'' article_node);
               title_s = (case title_node of
                            Some n \<Rightarrow> py_strip (concat (itertext n))
                          | None \<Rightarrow> ''No Title Found'');
               authors_l = map (\<lambda>a. py_strip (findtext_str (children_named ''LastName'' a) [] @ '' '' @
                                               findtext_str (children_named ''Initials'' a) []))
                             (findall_path ''AuthorList'' [''Author''] article_node);
               journal_s = findtext_str (findall_path ''Journal'' [''Title''] article_node) ''N/A'';
               pub_date_s = findtext_str (findall_path ''PubDate'' [''Year''] article_node) ''N/A'';
               volume_o = findtext_opt (findall_path ''Journal'' [''JournalIssue'', ''Volume''] article_node);
               issue_o = findtext_opt (findall_path ''Journal'' [''JournalIssue'', ''Issue''] article_node);
               pages_o = findtext_opt (findall_path ''Pagination'' [''MedlinePgn''] article_node);
               mesh = map (\<lambda>t. the (el_text t))
                        (filter (\<lambda>t. truthy_opt (el_text t))
                           (findall_path ''MeshHeadingList'' [''MeshHeading'', ''DescriptorName''] article_node));
               doi_node = find_first
                            (filter (\<lambda>e. map_of (el_attrib e) ''IdType'' = Some ''doi'')
                               (findall_path ''ArticleIdList'' [''ArticleId''] article_node));
               doi_o = (case doi_node of Some n \<Rightarrow> el_text n | None \<Rightarrow> None);
               abstract_s = abstract_of article_node
           in if valid_http_url env (article_link p)
              then Inr (Some \<lparr>pmid = p, title = py_strip title_s, pub_date = pub_date_s,
                               journal = journal_s, authors = authors_l, abstract = abstract_s,
                               mesh_terms = mesh, doi = doi_o, link = HttpUrl (article_link p),
                               volume = volume_o, issue = issue_o, pages = pages_o\<rparr>)
              else Inl ValidationError))"

definition details_except :: "exn \<Rightarrow> state \<Rightarrow> (exn + Article option) \<times> state" where
  \<comment> \<open>\<open>except (ElementTree.ParseError, ValidationError)\<close>\<close>
  "details_except e s =
     (if e = ParseError \<or> e = ValidationError then (Inr None, log_msg ERROR s) else (Inl e, s))"

definition fetch_article_details :: "env \<Rightarrow> string \<Rightarrow> state \<Rightarrow> (exn + Article option) \<times> state" where
  "fetch_article_details env p s =
     (let params = dict_update BASE_PARAMS
            [(''id'', JStr p), (''retmode'', JStr ''xml''), (''rettype'', JStr ''abstract'')];
          url = EUTILS_BASE_URL env @ ''efetch.fcgi''
      in case make_request env url params ''text'' s of
           ((Inl e, _), s1) \<Rightarrow> details_except e s1
         | ((Inr xml_data, _), s1) \<Rightarrow>
             if \<not> truthy xml_data then (Inr None, s1)
             else (case bind_exn (case xml_data of JStr t \<Rightarrow> xml_fromstring env t | _ \<Rightarrow> Inl TypeError)
                          (parse_article env p) of
                     Inl e \<Rightarrow> details_except e s1
                   | Inr a \<Rightarrow> (Inr a, s1)))"


section \<open>Properties as the specification words them\<close>

definition has_field_tag :: "string \<Rightarrow> bool" where
  \<comment> \<open>the query embeds a bracketed field tag: two to four ASCII letters between brackets\<close>
  "has_field_tag q =
     (\<exists>pre t post. q = pre @ ''['' @ t @ '']'' @ post
        \<and> 2 \<le> length t \<and> length t \<le> 4 \<and> list_all is_ascii_letter t)"

definition section_text :: "xml \<Rightarrow> string" where
  \<comment> \<open>the text of an abstract section, trimmed\<close>
  "section_text node = py_strip (concat (itertext node))"

definition render_section :: "xml \<Rightarrow> string" where
  \<comment> \<open>a section with a non-empty label renders as \<open>**Label:** text\<close>, the label trimmed\<close>
  "render_section node =
     (case map_of (el_attrib node) ''Label'' of
        None \<Rightarrow> section_text node
      | Some l \<Rightarrow> if l = [] then section_text node
                  else ''**'' @ py_strip l @ '':** '' @ section_text node)"

definition spec_abstract :: "xml \<Rightarrow> string" where
  \<comment> \<open>the sections with text, rendered and joined by a blank line, or the sentinel\<close>
  "spec_abstract article_node =
     (let sections = filter (\<lambda>n. section_text n \<noteq> [])
                       (findall_path ''Abstract'' [''AbstractText''] article_node)
      in if sections = [] then ''Abstract not available.''
         else join [CHR 0x0A, CHR 0x0A] (map render_section sections))"

definition record_of :: "(string \<times> json) list \<Rightarrow> json \<Rightarrow> json option" where
  \<comment> \<open>the record of a listed uid, when \<open>result\<close> has one\<close>
  "record_of result uid = (case uid of JStr k \<Rightarrow> map_of result k | _ \<Rightarrow> None)"

definition listed_records :: "(string \<times> json) list \<Rightarrow> json list \<Rightarrow> json list" where
  \<comment> \<open>the records of the listed uids, in the order of the list\<close>
  "listed_records result uids = List.map_filter (record_of result) uids"

definition valid_record :: "json \<Rightarrow> bool" where
  \<comment> \<open>the record yields a summary\<close>
  "valid_record info = (case summary_of_info info of Inr x \<Rightarrow> True | Inl e \<Rightarrow> False)"

definition rejected_record :: "json \<Rightarrow> bool" where
  \<comment> \<open>the construction of the summary fails its validation\<close>
  "rejected_record info = (summary_of_info info = Inl ValidationError)"

definition summaries_of :: "json list \<Rightarrow> ArticleSummary list" where
  \<comment> \<open>the summaries of the valid records\<close>
  "summaries_of infos =
     List.map_filter (\<lambda>info. case summary_of_info info of Inr x \<Rightarrow> Some x | Inl e \<Rightarrow> None) infos"

definition hashable :: "json \<Rightarrow> bool" where
  "hashable x = (case x of JArr xs \<Rightarrow> False | JObj kvs \<Rightarrow> False | _ \<Rightarrow> True)"

section \<open>Fixtures\<close>

definition script_outcome :: "http_outcome list \<Rightarrow> nat \<Rightarrow> http_outcome" where
  \<comment> \<open>an upstream that answers the \<open>n\<close>-th GET with the \<open>n\<close>-th entry of a script\<close>
  "script_outcome xs n = (if n < length xs then xs ! n else HttpRaise ClientConnectionError)"

definition default_env :: "http_outcome list \<Rightarrow> env" where
  \<comment> \<open>the default settings: no credential, no Redis client\<close>
  "default_env script =
     \<lparr>NCBI_API_KEY = None,
      EUTILS_BASE_URL = ''https://eutils.ncbi.nlm.nih.gov/entrez/eutils/'',
      CACHE_TTL = 3600,
      has_redis = False,
      redis_get = (\<lambda>n k. Inr None),
      redis_set = (\<lambda>n k v t. None),
      http_get = (\<lambda>n url ps rt. script_outcome script n),
      md5_hexdigest = (\<lambda>s. replicate 32 CHR ''0''),
      json_encode_str = (\<lambda>s. [CHR 0x22] @ s @ [CHR 0x22]),
      json_loads = (\<lambda>s. Inl JSONDecodeError),
      xml_fromstring = (\<lambda>s. Inl ParseError),
      valid_http_url = (\<lambda>s. True)\<rparr>"

definition keyed_env :: "http_outcome list \<Rightarrow> env" where
  \<comment> \<open>a credential and a Redis client that always misses\<close>
  "keyed_env script = (default_env script)\<lparr>NCBI_API_KEY := Some ''K'', has_redis := True\<rparr>"

definition init_state :: state where
  "init_state = \<lparr>requests = [], sleeps = [], cache_gets = [], cache_sets = [], logs = []\<rparr>"

definition abstract_doc :: "(string option \<times> string) list \<Rightarrow> xml" where
  \<comment> \<open>an article whose abstract has the given sections, each a label and a text\<close>
  "abstract_doc secs =
     Element ''PubmedArticle'' [] None
       [Element ''Abstract'' [] None
          (map (\<lambda>(l, t). Element ''AbstractText''
                             (case l of None \<Rightarrow> [] | Some x \<Rightarrow> [(''Label'', x)]) (Some t) [] None)
             secs)
          None]
       None"

definition sample_doc :: xml where
  \<comment> \<open>a small \<open>efetch\<close> document\<close>
  "sample_doc =
     Element ''PubmedArticleSet'' [] None
       [Element ''PubmedArticle'' [] None
          [Element ''MedlineCitation'' [] None
             [Element ''Article'' [] None
                [Element ''Journal'' [] None
                   [Element ''JournalIssue'' [] None
                      [Element ''Volume'' [] (Some ''5'') [] None,
                       Element ''Issue'' [] (Some ''2'') [] None,
                       Element ''PubDate'' [] None [Element ''Year'' [] (Some ''2020'') [] None] None]
                      None,
                    Element ''Title'' [] (Some ''J'') [] None]
                   None,
                 Element ''ArticleTitle'' [] (Some ''Foo '') [Element ''i'' [] (Some ''bar'') [] (Some '' baz '')] None,
                 Element ''Pagination'' [] None [Element ''MedlinePgn'' [] (Some ''10-20'') [] None] None,
                 Element ''Abstract'' [] None
                   [Element ''AbstractText'' [(''Label'', ''Methods'')] (Some ''We did X'') [] None,
                    Element ''AbstractText'' [] (Some ''Y'') [] None]
                   None,
                 Element ''AuthorList'' [] None
                   [Element ''Author'' [] None
                      [Element ''LastName'' [] (Some ''Doe'') [] None,
                       Element ''Initials'' [] (Some ''J'') [] None]
                      None,
                    Element ''Author'' [] None [Element ''CollectiveName'' [] (Some ''Group'') [] None] None]
                   None]
                None,
              Element ''MeshHeadingList'' [] None
                [Element ''MeshHeading'' [] None [Element ''DescriptorName'' [] (Some ''Humans'') [] None] None]
                None]
             None,
           Element ''PubmedData'' [] None
             [Element ''ArticleIdList'' [] None
                [Element ''ArticleId'' [(''IdType'', ''pubmed'')] (Some ''123'') [] None,
                 Element ''ArticleId'' [(''IdType'', ''doi'')] (Some ''10.1/x'') [] None]
                None]
             None]
          None]
       None"

definition xml_env :: env where
  \<comment> \<open>an upstream that answers with a document the parser reads as \<open>sample_doc\<close>\<close>
  "xml_env = (default_env [HttpResponse 200 (Inr (JStr ''<PubmedArticleSet/>''))])
               \<lparr>xml_fromstring := (\<lambda>s. Inr sample_doc)\<rparr>"

definition summary_record :: "string \<Rightarrow> json" where
  \<comment> \<open>a complete \<open>esummary\<close> record\<close>
  "summary_record u =
     JObj [(''uid'', JStr u), (''title'', JStr (''Title '' @ u)), (''pubdate'', JStr ''2020''),
           (''source'', JStr ''J''), (''authors'', JArr [JObj [(''name'', JStr ''Doe J'')]])]"

definition summary_payload :: "json \<Rightarrow> json" where
  \<comment> \<open>an \<open>esummary\<close> answer with three complete records and a fourth one, given\<close>
  "summary_payload fourth =
     JObj [(''result'',
            JObj [(''uids'', JArr [JStr ''1'', JStr ''2'', JStr ''3'', JStr ''4'']),
                  (''1'', summary_record ''1''), (''2'', summary_record ''2''),
                  (''3'', summary_record ''3''), (''4'', fourth)])]"

definition summary_result :: "string \<Rightarrow> ArticleSummary" where
  "summary_result u =
     \<lparr>pmid = u, title = ''Title '' @ u, pub_date = ''2020'', journal = ''J'', authors = [''Doe J'']\<rparr>"

definition transient_response :: "http_outcome \<Rightarrow> bool" where
  \<comment> \<open>a response whose status is 429 or at least 500\<close>
  "transient_response r =
     (case r of HttpResponse status decoded \<Rightarrow> status = 429 \<or> 500 \<le> status | HttpRaise e \<Rightarrow> False)"

definition cache_quiet :: "env \<Rightarrow> bool" where
  \<comment> \<open>the cache, when there is one, never hits, and fails with \<open>RedisError\<close> only\<close>
  "cache_quiet env =
     (\<not> has_redis env \<or>
      ((\<forall>n k. redis_get env n k = Inr None \<or> redis_get env n k = Inr (Some []) \<or>
              redis_get env n k = Inl RedisError) \<and>
       (\<forall>n k v t. redis_set env n k v t = None \<or> redis_set env n k v t = Some RedisError)))"


section \<open>The cache key\<close>

lemma sort_items_eq:
  assumes "distinct (map fst ps)" "distinct (map fst qs)" "set ps = set qs"
  shows "sort_key fst (map (\<lambda>kv. (fst kv, f kv)) ps) = sort_key fst (map (\<lambda>kv. (fst kv, f kv)) qs)"
proof (rule sort_key_inj_key_eq)
  have dp: "distinct ps" and dq: "distinct qs"
    using assms(1,2) by (simp_all add: distinct_map)
  have "mset ps = mset qs"
    using dp dq assms(3) by (simp add: set_eq_iff_mset_eq_distinct)
  then show "mset (map (\<lambda>kv. (fst kv, f kv)) ps) = mset (sort_key fst (map (\<lambda>kv. (fst kv, f kv)) qs))"
    by (metis mset_map mset_sort)
  show "inj_on fst (set (map (\<lambda>kv. (fst kv, f kv)) ps))"
    using assms(1) by (auto simp: inj_on_def distinct_map)
  show "sorted (map fst (sort_key fst (map (\<lambda>kv. (fst kv, f kv)) qs)))"
    by simp
qed

lemma json_dumps_sorted_perm:
  assumes "distinct (map fst ps)" "distinct (map fst qs)" "set ps = set qs"
  shows "json_dumps esc True (JObj ps) = json_dumps esc True (JObj qs)"
  unfolding json_dumps.simps Let_def if_True
  by (rule arg_cong [where f = "\<lambda>items. ''{'' @ join '', '' (map snd items) @ ''}''"])
     (rule sort_items_eq [OF assms])

text \<open>
  C3. The cache key is a function of the url and of the set of key/value pairs of the
  parameters: two parameter dicts holding the same pairs, inserted in any order, get the
  same key. The key is the prefix \<open>pubmed_cache:\<close> and the hex digest, so with the 32
  hex digits of MD5 it has 45 characters.
\<close>

theorem cache_key_order_invariant:
  assumes "distinct (map fst ps)" "distinct (map fst qs)" "set ps = set qs"
    and "\<forall>x. length (md5_hexdigest env x) = 32"
  shows "generate_cache_key env url ps = generate_cache_key env url qs
       \<and> length (generate_cache_key env url ps) = 45"
  using json_dumps_sorted_perm [OF assms(1-3)] assms(4)
  by (simp add: generate_cache_key_def cache_key_string_def)

theorem cache_key_order_invariant_witness:
  "generate_cache_key (default_env []) ''u'' [(''term'', JStr ''x''), (''db'', JStr ''pubmed'')]
     = generate_cache_key (default_env []) ''u'' [(''db'', JStr ''pubmed''), (''term'', JStr ''x'')]
   \<and> length (generate_cache_key (default_env []) ''u'' [(''term'', JStr ''x''), (''db'', JStr ''pubmed'')]) = 45
   \<and> cache_key_string (default_env []) ''u'' [(''term'', JStr ''x''), (''db'', JStr ''pubmed'')]
     = ''u?{'' @ json_encode_str (default_env []) ''db'' @ '': '' @ json_encode_str (default_env []) ''pubmed''
         @ '', '' @ json_encode_str (default_env []) ''term'' @ '': '' @ json_encode_str (default_env []) ''x'' @ ''}''"
proof -
  have d1: "distinct (map fst [(''term'', JStr ''x''), (''db'', JStr ''pubmed'')])" by simp
  have d2: "distinct (map fst [(''db'', JStr ''pubmed''), (''term'', JStr ''x'')])" by simp
  have se: "set [(''term'', JStr ''x''), (''db'', JStr ''pubmed'')]
          = set [(''db'', JStr ''pubmed''), (''term'', JStr ''x'')]" by auto
  have md: "\<forall>x. length (md5_hexdigest (default_env []) x) = 32"
    by (simp add: default_env_def)
  have ks: "cache_key_string (default_env []) ''u'' [(''term'', JStr ''x''), (''db'', JStr ''pubmed'')]
     = ''u?{'' @ json_encode_str (default_env []) ''db'' @ '': '' @ json_encode_str (default_env []) ''pubmed''
         @ '', '' @ json_encode_str (default_env []) ''term'' @ '': '' @ json_encode_str (default_env []) ''x'' @ ''}''"
    by code_simp
  show ?thesis
    using cache_key_order_invariant [OF d1 d2 se md, of "''u''"] ks
    by blast
qed

section \<open>The citation\<close>

lemma authors_str_rule:
  "authors_str as = (if length as \<le> 6 then join '', '' as else join '', '' (take 3 as) @ '', et al'')"
  by (cases as) (auto simp: authors_str_def)

text \<open>
  C6. With seven authors the first three are listed, followed by \<open>, et al\<close>. The parts
  of the citation are joined with single spaces, the year and the volume among them, so
  the example of the claim comes out with a space after \<open>2020;\<close>.
\<close>

theorem to_ama_citation_example:
  "to_ama_citation
     \<lparr>pmid = ''1'', title = ''Foo'', pub_date = ''2020'', journal = ''J'',
      authors = [''A'', ''B'', ''C'', ''D'', ''E'', ''F'', ''G''], abstract = ''x'',
      mesh_terms = [], doi = None, link = HttpUrl (article_link ''1''),
      volume = Some ''5'', issue = Some ''2'', pages = Some ''10-20''\<rparr>
   = ''A, B, C, et al Foo. *J*. 2020; 5(2):10-20.''"
  by code_simp

section \<open>The retry loop\<close>

lemma cache_store_quiet:
  assumes "cache_quiet env"
  shows "fst (cache_store env key result s) = None"
    and "requests (snd (cache_store env key result s)) = requests s"
    and "sleeps (snd (cache_store env key result s)) = sleeps s"
proof -
  have "\<not> has_redis env
      \<or> redis_set env (length (cache_sets s)) key (json_dumps (json_encode_str env) False result) (CACHE_TTL env) = None
      \<or> redis_set env (length (cache_sets s)) key (json_dumps (json_encode_str env) False result) (CACHE_TTL env) = Some RedisError"
    using assms by (auto simp: cache_quiet_def)
  then show "fst (cache_store env key result s) = None"
    and "requests (snd (cache_store env key result s)) = requests s"
    and "sleeps (snd (cache_store env key result s)) = sleeps s"
    by (auto simp: cache_store_def log_msg_def Let_def)
qed

lemma attempt_request_ok:
  assumes "cache_quiet env"
    and "http_get env (length (requests s)) url ps rt = HttpResponse st (Inr body)" "st < 400"
  shows "fst (attempt_request env url ps rt key s) = Inr body"
    and "requests (snd (attempt_request env url ps rt key s)) = requests s @ [(url, ps)]"
    and "sleeps (snd (attempt_request env url ps rt key s)) = sleeps s"
  using assms(2,3)
    cache_store_quiet [OF assms(1), of key body "s\<lparr>requests := requests s @ [(url, ps)]\<rparr>"]
  by (auto simp: attempt_request_def Let_def split: prod.splits option.splits)

lemma attempt_request_transient:
  assumes "transient_response (http_get env (length (requests s)) url ps rt)"
  shows "\<exists>st. attempt_request env url ps rt key s =
           (Inl (ClientResponseError st), s\<lparr>requests := requests s @ [(url, ps)]\<rparr>) \<and> (st = 429 \<or> 500 \<le> st)"
  using assms
  by (auto simp: attempt_request_def transient_response_def Let_def split: http_outcome.splits)

lemma retry_loop_transient_step:
  assumes "transient_response (http_get env (length (requests s)) url ps rt)"
  shows "retry_loop env url ps rt key (a # rest) s =
         retry_loop env url ps rt key rest
           (let s2 = log_msg WARNING (s\<lparr>requests := requests s @ [(url, ps)]\<rparr>)
            in if a < MAX_RETRIES - 1 then s2\<lparr>sleeps := sleeps s2 @ [RETRY_DELAY ^ a]\<rparr> else s2)"
proof -
  obtain st where "attempt_request env url ps rt key s =
      (Inl (ClientResponseError st), s\<lparr>requests := requests s @ [(url, ps)]\<rparr>)" "st = 429 \<or> 500 \<le> st"
    using attempt_request_transient [OF assms] by blast
  then show ?thesis by (simp add: Let_def)
qed

lemma retry_loop_success:
  assumes "cache_quiet env"
    and "\<forall>j<n. transient_response (http_get env (length (requests s) + j) url ps rt)"
    and "http_get env (length (requests s) + n) url ps rt = HttpResponse st (Inr body)" "st < 400"
    and "a + n < MAX_RETRIES"
  shows "fst (retry_loop env url ps rt key [a..<MAX_RETRIES] s) = Inr body
       \<and> sleeps (snd (retry_loop env url ps rt key [a..<MAX_RETRIES] s))
           = sleeps s @ map (\<lambda>k. RETRY_DELAY ^ k) [a..<a + n]
       \<and> requests (snd (retry_loop env url ps rt key [a..<MAX_RETRIES] s))
           = requests s @ replicate (Suc n) (url, ps)"
  using assms(2-5)
proof (induction n arbitrary: a s)
  case 0
  then have a: "[a..<MAX_RETRIES] = a # [Suc a..<MAX_RETRIES]"
    by (simp add: upt_conv_Cons)
  from 0 have h: "http_get env (length (requests s)) url ps rt = HttpResponse st (Inr body)"
    by simp
  obtain s1 where "attempt_request env url ps rt key s = (Inr body, s1)"
    "requests s1 = requests s @ [(url, ps)]" "sleeps s1 = sleeps s"
    using attempt_request_ok [OF assms(1) h \<open>st < 400\<close>, of key]
    by (cases "attempt_request env url ps rt key s") auto
  then show ?case
    by (simp add: a)
next
  case (Suc n)
  then have a: "[a..<MAX_RETRIES] = a # [Suc a..<MAX_RETRIES]" and lt: "a < MAX_RETRIES - 1"
    by (simp_all add: upt_conv_Cons)
  from Suc.prems(1) have t0: "transient_response (http_get env (length (requests s)) url ps rt)"
    by (metis add.right_neutral zero_less_Suc)
  define s3 where "s3 = (log_msg WARNING (s\<lparr>requests := requests s @ [(url, ps)]\<rparr>))\<lparr>sleeps := sleeps s @ [RETRY_DELAY ^ a]\<rparr>"
  have step: "retry_loop env url ps rt key [a..<MAX_RETRIES] s
            = retry_loop env url ps rt key [Suc a..<MAX_RETRIES] s3"
    unfolding a retry_loop_transient_step [OF t0] s3_def using lt by (simp add: Let_def log_msg_def)
  have r3: "requests s3 = requests s @ [(url, ps)]" and sl3: "sleeps s3 = sleeps s @ [RETRY_DELAY ^ a]"
    by (simp_all add: s3_def log_msg_def)
  have p1: "\<forall>j<n. transient_response (http_get env (length (requests s3) + j) url ps rt)"
    using Suc.prems(1) by (simp add: r3) (metis Suc_less_eq add_Suc_right)
  have p2: "http_get env (length (requests s3) + n) url ps rt = HttpResponse st (Inr body)"
    using Suc.prems(2) by (simp add: r3)
  have p4: "Suc a + n < MAX_RETRIES" using Suc.prems(4) by simp
  show ?case
    unfolding step using Suc.IH [OF p1 p2 \<open>st < 400\<close> p4]
    by (simp add: r3 sl3 replicate_app_Cons_same upt_conv_Cons [of a] del: upt_Suc)
qed

lemma retry_loop_exhaust:
  assumes "\<forall>j<m. transient_response (http_get env (length (requests s) + j) url ps rt)"
    and "a + m = MAX_RETRIES"
  shows "fst (retry_loop env url ps rt key [a..<MAX_RETRIES] s) = Inr JNull
       \<and> sleeps (snd (retry_loop env url ps rt key [a..<MAX_RETRIES] s))
           = sleeps s @ map (\<lambda>k. RETRY_DELAY ^ k) [a..<MAX_RETRIES - 1]
       \<and> requests (snd (retry_loop env url ps rt key [a..<MAX_RETRIES] s))
           = requests s @ replicate m (url, ps)"
  using assms
proof (induction m arbitrary: a s)
  case 0
  then show ?case by (simp add: log_msg_def)
next
  case (Suc m)
  then have a: "[a..<MAX_RETRIES] = a # [Suc a..<MAX_RETRIES]"
    by (simp add: upt_conv_Cons)
  from Suc.prems(1) have t0: "transient_response (http_get env (length (requests s)) url ps rt)"
    by (metis add.right_neutral zero_less_Suc)
  define s3 where "s3 = (let s2 = log_msg WARNING (s\<lparr>requests := requests s @ [(url, ps)]\<rparr>)
            in if a < MAX_RETRIES - 1 then s2\<lparr>sleeps := sleeps s2 @ [RETRY_DELAY ^ a]\<rparr> else s2)"
  have step: "retry_loop env url ps rt key [a..<MAX_RETRIES] s
            = retry_loop env url ps rt key [Suc a..<MAX_RETRIES] s3"
    unfolding a retry_loop_transient_step [OF t0] s3_def by simp
  have r3: "requests s3 = requests s @ [(url, ps)]"
    and sl3: "sleeps s3 = sleeps s @ (if a < MAX_RETRIES - 1 then [RETRY_DELAY ^ a] else [])"
    by (simp_all add: s3_def log_msg_def Let_def)
  have p1: "\<forall>j<m. transient_response (http_get env (length (requests s3) + j) url ps rt)"
    using Suc.prems(1) by (simp add: r3) (metis Suc_less_eq add_Suc_right)
  have p2: "Suc a + m = MAX_RETRIES" using Suc.prems(2) by simp
  show ?case
    unfolding step using Suc.IH [OF p1 p2]
    by (simp add: r3 sl3 replicate_app_Cons_same upt_conv_Cons [of a] del: upt_Suc)
qed


lemma cache_lookup_quiet:
  assumes "cache_quiet env"
  shows "fst (cache_lookup env key s) = Inr None"
    and "requests (snd (cache_lookup env key s)) = requests s"
    and "sleeps (snd (cache_lookup env key s)) = sleeps s"
proof -
  have "\<not> has_redis env
      \<or> redis_get env (length (cache_gets s)) key = Inr None
      \<or> redis_get env (length (cache_gets s)) key = Inr (Some [])
      \<or> redis_get env (length (cache_gets s)) key = Inl RedisError"
    using assms by (auto simp: cache_quiet_def)
  then show "fst (cache_lookup env key s) = Inr None"
    and "requests (snd (cache_lookup env key s)) = requests s"
    and "sleeps (snd (cache_lookup env key s)) = sleeps s"
    by (auto simp: cache_lookup_def log_msg_def Let_def truthy_opt_def)
qed

lemma make_request_miss:
  assumes "cache_quiet env"
  obtains s0 where
    "make_request env url ps rt s =
       ((fst (retry_loop env url (inject_api_key env ps) rt
                (generate_cache_key env url (inject_api_key env ps)) [0..<MAX_RETRIES] s0),
         inject_api_key env ps),
        snd (retry_loop env url (inject_api_key env ps) rt
                (generate_cache_key env url (inject_api_key env ps)) [0..<MAX_RETRIES] s0))"
    "requests s0 = requests s" "sleeps s0 = sleeps s"
proof -
  let ?key = "generate_cache_key env url (inject_api_key env ps)"
  obtain s1 where l: "cache_lookup env ?key s = (Inr None, s1)"
    "requests s1 = requests s" "sleeps s1 = sleeps s"
    using cache_lookup_quiet [OF assms, of ?key s]
    by (cases "cache_lookup env ?key s") auto
  show thesis
  proof (rule that [of "log_msg INFO s1"])
    show "make_request env url ps rt s =
       ((fst (retry_loop env url (inject_api_key env ps) rt ?key [0..<MAX_RETRIES] (log_msg INFO s1)),
         inject_api_key env ps),
        snd (retry_loop env url (inject_api_key env ps) rt ?key [0..<MAX_RETRIES] (log_msg INFO s1)))"
      using l(1) by (simp add: make_request_def Let_def split: prod.splits)
  qed (simp_all add: l log_msg_def)
qed

lemma retry_loop_fatal:
  assumes "(\<exists>st d. http_get env (length (requests s)) url ps rt = HttpResponse st d
                  \<and> 400 \<le> st \<and> st \<noteq> 429 \<and> st < 500)
         \<or> http_get env (length (requests s)) url ps rt = HttpRaise ClientConnectionError"
  shows "retry_loop env url ps rt key (a # rest) s =
           (Inr JNull, log_msg ERROR (log_msg ERROR (s\<lparr>requests := requests s @ [(url, ps)]\<rparr>)))"
  using assms by (auto simp: attempt_request_def Let_def)

text \<open>
  C1 (as amended). When the cache does not answer, \<open>n\<close> responses with status 429 or
  at least 500 followed by a 200 give the decoded 200 if \<open>n < MAX_RETRIES\<close> and the
  failure signal \<open>None\<close> otherwise; the delays slept are \<open>RETRY_DELAY ^ k\<close> for the
  attempts \<open>k = 0, ..., min n (MAX_RETRIES - 1) - 1\<close>, and \<open>min (n + 1) MAX_RETRIES\<close>
  requests are issued. A first response with another error status, or a transport-level
  client error, gives \<open>None\<close> after one request and no delay.
\<close>

theorem make_request_retry_policy:
  assumes "cache_quiet env"
  shows "((\<forall>j<n. transient_response
                   (http_get env (length (requests s) + j) url (inject_api_key env ps) rt))
          \<and> (n < MAX_RETRIES \<longrightarrow>
               http_get env (length (requests s) + n) url (inject_api_key env ps) rt
                 = HttpResponse 200 (Inr body))
          \<longrightarrow> fst (fst (make_request env url ps rt s)) = (if n < MAX_RETRIES then Inr body else Inr JNull)
            \<and> sleeps (snd (make_request env url ps rt s))
                = sleeps s @ map (\<lambda>k. RETRY_DELAY ^ k) [0..<min n (MAX_RETRIES - 1)]
            \<and> requests (snd (make_request env url ps rt s))
                = requests s @ replicate (min (Suc n) MAX_RETRIES) (url, inject_api_key env ps))
       \<and> (((\<exists>st d. http_get env (length (requests s)) url (inject_api_key env ps) rt = HttpResponse st d
                    \<and> 400 \<le> st \<and> st \<noteq> 429 \<and> st < 500)
            \<or> http_get env (length (requests s)) url (inject_api_key env ps) rt
                 = HttpRaise ClientConnectionError)
          \<longrightarrow> fst (fst (make_request env url ps rt s)) = Inr JNull
            \<and> sleeps (snd (make_request env url ps rt s)) = sleeps s
            \<and> requests (snd (make_request env url ps rt s))
                = requests s @ [(url, inject_api_key env ps)])"
proof -
  let ?ps = "inject_api_key env ps"
  let ?key = "generate_cache_key env url ?ps"
  obtain s0 where mr: "make_request env url ps rt s =
       ((fst (retry_loop env url ?ps rt ?key [0..<MAX_RETRIES] s0), ?ps),
        snd (retry_loop env url ?ps rt ?key [0..<MAX_RETRIES] s0))"
    and r0: "requests s0 = requests s" and sl0: "sleeps s0 = sleeps s"
    using make_request_miss [OF assms] by blast
  have part1: "fst (fst (make_request env url ps rt s)) = (if n < MAX_RETRIES then Inr body else Inr JNull)
            \<and> sleeps (snd (make_request env url ps rt s))
                = sleeps s @ map (\<lambda>k. RETRY_DELAY ^ k) [0..<min n (MAX_RETRIES - 1)]
            \<and> requests (snd (make_request env url ps rt s))
                = requests s @ replicate (min (Suc n) MAX_RETRIES) (url, ?ps)"
    if fails: "\<forall>j<n. transient_response (http_get env (length (requests s) + j) url ?ps rt)"
      and succ: "n < MAX_RETRIES \<longrightarrow>
               http_get env (length (requests s) + n) url ?ps rt = HttpResponse 200 (Inr body)"
  proof (cases "n < MAX_RETRIES")
    case True
    have f0: "\<forall>j<n. transient_response (http_get env (length (requests s0) + j) url ?ps rt)"
      using fails by (simp add: r0)
    have g0: "http_get env (length (requests s0) + n) url ?ps rt = HttpResponse 200 (Inr body)"
      using succ True by (simp add: r0)
    have m: "min n (MAX_RETRIES - 1) = n" "min (Suc n) MAX_RETRIES = Suc n"
      using True by simp_all
    show ?thesis
      using retry_loop_success [OF assms f0 g0, of 0 ?key] True
      by (simp add: mr r0 sl0 m del: replicate_Suc)
  next
    case False
    have f0: "\<forall>j<MAX_RETRIES. transient_response (http_get env (length (requests s0) + j) url ?ps rt)"
      using fails False by (simp add: r0)
    have m: "min n (MAX_RETRIES - 1) = MAX_RETRIES - 1" "min (Suc n) MAX_RETRIES = MAX_RETRIES"
      using False by simp_all
    show ?thesis
      using retry_loop_exhaust [OF f0, of 0 ?key] False
      by (simp add: mr r0 sl0 m)
  qed
  have part2: "fst (fst (make_request env url ps rt s)) = Inr JNull
            \<and> sleeps (snd (make_request env url ps rt s)) = sleeps s
            \<and> requests (snd (make_request env url ps rt s)) = requests s @ [(url, ?ps)]"
    if fatal: "(\<exists>st d. http_get env (length (requests s)) url ?ps rt = HttpResponse st d
                    \<and> 400 \<le> st \<and> st \<noteq> 429 \<and> st < 500)
            \<or> http_get env (length (requests s)) url ?ps rt = HttpRaise ClientConnectionError"
  proof -
    have u: "[0..<MAX_RETRIES] = 0 # [Suc 0..<MAX_RETRIES]"
      by (simp add: MAX_RETRIES_def upt_conv_Cons)
    have f0: "(\<exists>st d. http_get env (length (requests s0)) url ?ps rt = HttpResponse st d
                    \<and> 400 \<le> st \<and> st \<noteq> 429 \<and> st < 500)
            \<or> http_get env (length (requests s0)) url ?ps rt = HttpRaise ClientConnectionError"
      using fatal by (simp add: r0)
    show ?thesis
      unfolding mr u retry_loop_fatal [OF f0]
      by (simp add: log_msg_def r0 sl0)
  qed
  show ?thesis
    using part1 part2 by blast
qed

theorem make_request_retry_policy_witness:
  "cache_quiet (default_env [HttpResponse 503 (Inr JNull), HttpResponse 429 (Inr JNull), HttpResponse 200 (Inr (JStr ''ok''))])
   \<and> fst (fst (make_request
        (default_env [HttpResponse 503 (Inr JNull), HttpResponse 429 (Inr JNull), HttpResponse 200 (Inr (JStr ''ok''))])
        ''u'' [] ''json'' init_state)) = Inr (JStr ''ok'')
   \<and> sleeps (snd (make_request
        (default_env [HttpResponse 503 (Inr JNull), HttpResponse 429 (Inr JNull), HttpResponse 200 (Inr (JStr ''ok''))])
        ''u'' [] ''json'' init_state)) = [1, 2]
   \<and> requests (snd (make_request
        (default_env [HttpResponse 503 (Inr JNull), HttpResponse 429 (Inr JNull), HttpResponse 200 (Inr (JStr ''ok''))])
        ''u'' [] ''json'' init_state)) = [(''u'', []), (''u'', []), (''u'', [])]
   \<and> fst (fst (make_request (default_env [HttpResponse 404 (Inr JNull)]) ''u'' [] ''json'' init_state)) = Inr JNull
   \<and> sleeps (snd (make_request (default_env [HttpResponse 404 (Inr JNull)]) ''u'' [] ''json'' init_state)) = []
   \<and> requests (snd (make_request (default_env [HttpResponse 404 (Inr JNull)]) ''u'' [] ''json'' init_state))
        = [(''u'', [])]"
proof -
  let ?e = "default_env [HttpResponse 503 (Inr JNull), HttpResponse 429 (Inr JNull), HttpResponse 200 (Inr (JStr ''ok''))]"
  let ?f = "default_env [HttpResponse 404 (Inr JNull)]"
  have cq: "cache_quiet ?e" and cf: "cache_quiet ?f"
    by (simp_all add: cache_quiet_def default_env_def)
  have inj: "inject_api_key ?e [] = []" "inject_api_key ?f [] = []"
    by (simp_all add: inject_api_key_def default_env_def truthy_opt_def)
  have fails: "\<forall>j<2. transient_response
      (http_get ?e (length (requests init_state) + j) ''u'' (inject_api_key ?e []) ''json'')"
    by (simp add: default_env_def init_state_def script_outcome_def transient_response_def
        less_Suc_eq numeral_2_eq_2)
  have succ: "2 < MAX_RETRIES \<longrightarrow>
      http_get ?e (length (requests init_state) + 2) ''u'' (inject_api_key ?e []) ''json''
        = HttpResponse 200 (Inr (JStr ''ok''))"
    by (simp add: default_env_def init_state_def script_outcome_def)
  have fatal: "(\<exists>st d. http_get ?f (length (requests init_state)) ''u'' (inject_api_key ?f []) ''json''
                   = HttpResponse st d \<and> 400 \<le> st \<and> st \<noteq> 429 \<and> st < 500)
             \<or> http_get ?f (length (requests init_state)) ''u'' (inject_api_key ?f []) ''json''
                   = HttpRaise ClientConnectionError"
    by (simp add: default_env_def init_state_def script_outcome_def)
  have a: "fst (fst (make_request ?e ''u'' [] ''json'' init_state)) = Inr (JStr ''ok'')
     \<and> sleeps (snd (make_request ?e ''u'' [] ''json'' init_state)) = [1, 2]
     \<and> requests (snd (make_request ?e ''u'' [] ''json'' init_state)) = [(''u'', []), (''u'', []), (''u'', [])]"
    using make_request_retry_policy [OF cq, of 2 init_state "''u''" "[]" "''json''" "JStr ''ok''",
        THEN conjunct1, THEN mp, OF conjI [OF fails succ]]
    by (simp add: inj MAX_RETRIES_def RETRY_DELAY_def init_state_def upt_conv_Cons numeral_3_eq_3)
  have b: "fst (fst (make_request ?f ''u'' [] ''json'' init_state)) = Inr JNull
     \<and> sleeps (snd (make_request ?f ''u'' [] ''json'' init_state)) = []
     \<and> requests (snd (make_request ?f ''u'' [] ''json'' init_state)) = [(''u'', [])]"
    using make_request_retry_policy [OF cf, of 0 init_state "''u''" "[]" "''json''" "JNull",
        THEN conjunct2, THEN mp, OF fatal]
    by (simp add: inj init_state_def)
  show ?thesis using cq a b by blast
qed

theorem retry_policy_counterexample:
  "fst (fst (make_request
        (default_env [HttpResponse 500 (Inr JNull), HttpResponse 500 (Inr JNull), HttpResponse 500 (Inr JNull),
                      HttpResponse 500 (Inr JNull), HttpResponse 200 (Inr (JStr ''ok''))])
        ''u'' [] ''json'' init_state)) \<noteq> Inr (JStr ''ok'')
   \<and> fst (fst (make_request
        (default_env [HttpRaise ClientConnectionError, HttpResponse 200 (Inr (JStr ''ok''))])
        ''u'' [] ''json'' init_state)) \<noteq> Inr (JStr ''ok'')
   \<and> sleeps (snd (make_request
        (default_env [HttpRaise ClientConnectionError, HttpResponse 200 (Inr (JStr ''ok''))])
        ''u'' [] ''json'' init_state)) = []
   \<and> sleeps (snd (make_request
        (default_env [HttpResponse 500 (Inr JNull), HttpResponse 200 (Inr (JStr ''ok''))])
        ''u'' [] ''json'' init_state)) \<noteq> [RETRY_DELAY * 2 ^ 0]"
  by (simp add: make_request_def default_env_def init_state_def inject_api_key_def truthy_opt_def
      cache_lookup_def generate_cache_key_def MAX_RETRIES_def upt_conv_Cons attempt_request_def
      cache_store_def script_outcome_def log_msg_def RETRY_DELAY_def)

section \<open>What a request leaves behind\<close>

lemma map_of_replace:
  "k \<in> fst ` set d \<Longrightarrow>
     map_of (map (\<lambda>(k', v'). if k' = k then (k', v) else (k', v')) d) k = Some v"
  by (induction d) auto

lemma map_of_dict_set: "map_of (dict_set d k v) k = Some v"
proof (cases "k \<in> fst ` set d")
  case True
  then show ?thesis by (simp add: dict_set_def map_of_replace)
next
  case False
  then have "map_of d k = None" by (simp add: map_of_eq_None_iff)
  with False show ?thesis by (simp add: dict_set_def map_add_def)
qed

lemma cache_store_frame:
  "requests (snd (cache_store env key result s)) = requests s
   \<and> cache_gets (snd (cache_store env key result s)) = cache_gets s
   \<and> (\<exists>vs. cache_sets (snd (cache_store env key result s))
             = cache_sets s @ map (\<lambda>v. (key, v, CACHE_TTL env)) vs)"
proof (cases "has_redis env")
  case False
  then show ?thesis by (simp add: cache_store_def)
next
  case True
  have "\<exists>vs. cache_sets s @ [(key, json_dumps (json_encode_str env) False result, CACHE_TTL env)]
            = cache_sets s @ map (\<lambda>v. (key, v, CACHE_TTL env)) vs"
    by (rule exI [of _ "[json_dumps (json_encode_str env) False result]"]) simp
  with True show ?thesis
    by (simp add: cache_store_def Let_def log_msg_def split: option.splits)
qed

lemma attempt_request_frame:
  "requests (snd (attempt_request env url ps rt key s)) = requests s @ [(url, ps)]
   \<and> cache_gets (snd (attempt_request env url ps rt key s)) = cache_gets s
   \<and> (\<exists>vs. cache_sets (snd (attempt_request env url ps rt key s))
             = cache_sets s @ map (\<lambda>v. (key, v, CACHE_TTL env)) vs)"
proof -
  let ?s1 = "s\<lparr>requests := requests s @ [(url, ps)]\<rparr>"
  have e: "\<exists>vs. cache_sets s = cache_sets s @ map (\<lambda>v. (key, v, CACHE_TTL env)) vs"
    by (rule exI [of _ "[]"]) simp
  show ?thesis
  proof (cases "http_get env (length (requests s)) url ps rt")
    case (HttpRaise x)
    then show ?thesis using e by (simp add: attempt_request_def)
  next
    case (HttpResponse st d)
    show ?thesis
    proof (cases "400 \<le> st")
      case True
      then show ?thesis
        using HttpResponse e by (simp add: attempt_request_def)
    next
      case False
      show ?thesis
      proof (cases d)
        case (Inl x)
        then show ?thesis
          using HttpResponse False e by (simp add: attempt_request_def)
      next
        case (Inr result)
        obtain x s2 where cs: "cache_store env key result ?s1 = (x, s2)"
          by (cases "cache_store env key result ?s1")
        show ?thesis
          using cache_store_frame [of env key result ?s1] HttpResponse False Inr cs
          by (cases x) (simp_all add: attempt_request_def)
      qed
    qed
  qed
qed

lemma retry_loop_frame:
  "(\<exists>k. requests (snd (retry_loop env url ps rt key as s)) = requests s @ replicate k (url, ps))
   \<and> cache_gets (snd (retry_loop env url ps rt key as s)) = cache_gets s
   \<and> (\<exists>vs. cache_sets (snd (retry_loop env url ps rt key as s))
             = cache_sets s @ map (\<lambda>v. (key, v, CACHE_TTL env)) vs)"
proof (induction as arbitrary: s)
  case Nil
  have "\<exists>k. requests s = requests s @ replicate k (url, ps)"
    by (rule exI [of _ 0]) simp
  moreover have "\<exists>vs. cache_sets s = cache_sets s @ map (\<lambda>v. (key, v, CACHE_TTL env)) vs"
    by (rule exI [of _ "[]"]) simp
  ultimately show ?case by (simp add: log_msg_def)
next
  case (Cons a as)
  obtain r s1 where at: "attempt_request env url ps rt key s = (r, s1)"
    by (cases "attempt_request env url ps rt key s")
  obtain vs1 where f1: "requests s1 = requests s @ [(url, ps)]" "cache_gets s1 = cache_gets s"
    "cache_sets s1 = cache_sets s @ map (\<lambda>v. (key, v, CACHE_TTL env)) vs1"
    using attempt_request_frame [of env url ps rt key s] at by auto
  have stop: "(\<exists>k. requests s' = requests s @ replicate k (url, ps))
      \<and> cache_gets s' = cache_gets s
      \<and> (\<exists>vs. cache_sets s' = cache_sets s @ map (\<lambda>v. (key, v, CACHE_TTL env)) vs)"
    if "requests s' = requests s1" "cache_gets s' = cache_gets s1" "cache_sets s' = cache_sets s1" for s'
  proof -
    have "requests s' = requests s @ replicate 1 (url, ps)" using that f1 by simp
    then have "\<exists>k. requests s' = requests s @ replicate k (url, ps)" by blast
    moreover have "\<exists>vs. cache_sets s' = cache_sets s @ map (\<lambda>v. (key, v, CACHE_TTL env)) vs"
      using that f1 by auto
    ultimately show ?thesis using that f1 by simp
  qed
  have go: "(\<exists>k. requests (snd (retry_loop env url ps rt key as s')) = requests s @ replicate k (url, ps))
      \<and> cache_gets (snd (retry_loop env url ps rt key as s')) = cache_gets s
      \<and> (\<exists>vs. cache_sets (snd (retry_loop env url ps rt key as s'))
             = cache_sets s @ map (\<lambda>v. (key, v, CACHE_TTL env)) vs)"
    if "requests s' = requests s1" "cache_gets s' = cache_gets s1" "cache_sets s' = cache_sets s1" for s'
  proof -
    obtain k vs where ih: "requests (snd (retry_loop env url ps rt key as s')) = requests s' @ replicate k (url, ps)"
      "cache_gets (snd (retry_loop env url ps rt key as s')) = cache_gets s'"
      "cache_sets (snd (retry_loop env url ps rt key as s')) = cache_sets s' @ map (\<lambda>v. (key, v, CACHE_TTL env)) vs"
      using Cons.IH [of s'] by blast
    have "requests (snd (retry_loop env url ps rt key as s')) = requests s @ replicate (Suc k) (url, ps)"
      using ih(1) that f1 by (simp add: replicate_app_Cons_same)
    then have "\<exists>k. requests (snd (retry_loop env url ps rt key as s')) = requests s @ replicate k (url, ps)"
      by blast
    moreover have "cache_sets (snd (retry_loop env url ps rt key as s'))
        = cache_sets s @ map (\<lambda>v. (key, v, CACHE_TTL env)) (vs1 @ vs)"
      using ih(3) that f1 by simp
    then have "\<exists>vs. cache_sets (snd (retry_loop env url ps rt key as s'))
        = cache_sets s @ map (\<lambda>v. (key, v, CACHE_TTL env)) vs"
      by blast
    ultimately show ?thesis using ih(2) that f1 by simp
  qed
  show ?case
  proof (cases r)
    case (Inr result)
    then show ?thesis using at stop [of s1] by simp
  next
    case (Inl e)
    show ?thesis
    proof (cases "is_ClientError e \<and> is_transient e")
      case True
      then show ?thesis
        using at Inl
          go [of "log_msg WARNING s1"]
          go [of "(log_msg WARNING s1)\<lparr>sleeps := sleeps (log_msg WARNING s1) @ [RETRY_DELAY ^ a]\<rparr>"]
        by (simp add: Let_def log_msg_def)
    next
      case False
      then show ?thesis
        using at Inl stop [of s1] stop [of "log_msg ERROR (log_msg ERROR s1)"]
        by (auto simp: log_msg_def)
    qed
  qed
qed

lemma cache_lookup_frame:
  "requests (snd (cache_lookup env key s)) = requests s
   \<and> cache_gets (snd (cache_lookup env key s)) = cache_gets s @ (if has_redis env then [key] else [])
   \<and> cache_sets (snd (cache_lookup env key s)) = cache_sets s"
  by (simp add: cache_lookup_def Let_def log_msg_def split: sum.splits)

lemma make_request_frame:
  "snd (fst (make_request env url ps rt s)) = inject_api_key env ps
   \<and> (\<exists>k. requests (snd (make_request env url ps rt s))
            = requests s @ replicate k (url, inject_api_key env ps))
   \<and> cache_gets (snd (make_request env url ps rt s))
       = cache_gets s @ (if has_redis env then [generate_cache_key env url (inject_api_key env ps)] else [])
   \<and> (\<exists>vs. cache_sets (snd (make_request env url ps rt s))
             = cache_sets s @ map (\<lambda>v. (generate_cache_key env url (inject_api_key env ps), v, CACHE_TTL env)) vs)"
proof -
  let ?ps = "inject_api_key env ps"
  let ?key = "generate_cache_key env url ?ps"
  obtain r s1 where cl: "cache_lookup env ?key s = (r, s1)"
    by (cases "cache_lookup env ?key s")
  have f1: "requests s1 = requests s"
    "cache_gets s1 = cache_gets s @ (if has_redis env then [?key] else [])"
    "cache_sets s1 = cache_sets s"
    using cache_lookup_frame [of env ?key s] cl by simp_all
  have k0: "\<exists>k. requests s1 = requests s @ replicate k (url, ?ps)"
    using f1(1) by (intro exI [of _ 0]) simp
  have v0: "\<exists>vs. cache_sets s1 = cache_sets s @ map (\<lambda>v. (?key, v, CACHE_TTL env)) vs"
    using f1(3) by (intro exI [of _ "[]"]) simp
  show ?thesis
  proof (cases "r = Inr None")
    case False
    then show ?thesis
      using cl k0 v0 f1(2)
      by (auto simp: make_request_def Let_def split: sum.splits option.splits)
  next
    case True
    let ?s0 = "log_msg INFO s1"
    have f0: "requests ?s0 = requests s" "cache_gets ?s0 = cache_gets s1" "cache_sets ?s0 = cache_sets s"
      by (simp_all add: log_msg_def f1)
    obtain r2 s2 where rl: "retry_loop env url ?ps rt ?key [0..<MAX_RETRIES] ?s0 = (r2, s2)"
      by (cases "retry_loop env url ?ps rt ?key [0..<MAX_RETRIES] ?s0")
    have mr: "make_request env url ps rt s = ((r2, ?ps), s2)"
      using cl True rl by (simp add: make_request_def Let_def)
    show ?thesis
      using retry_loop_frame [of env url ?ps rt ?key "[0..<MAX_RETRIES]" ?s0] rl
      by (simp add: mr f0 f1)
  qed
qed

text \<open>
  C10. \<open>_make_request\<close> leaves the caller's dict as \<open>inject_api_key\<close> makes it: with a
  credential configured the dict holds \<open>api_key\<close> after every call, whatever the call
  returns, and without one it is unchanged. The key read from the cache, and the key of
  every entry written, is computed from the dict holding the credential.
\<close>

theorem make_request_injects_api_key:
  "snd (fst (make_request env url ps rt s)) = inject_api_key env ps
   \<and> (truthy_opt (NCBI_API_KEY env) \<longrightarrow>
        inject_api_key env ps = dict_set ps ''api_key'' (JStr (the (NCBI_API_KEY env)))
        \<and> map_of (snd (fst (make_request env url ps rt s))) ''api_key''
            = Some (JStr (the (NCBI_API_KEY env))))
   \<and> (\<not> truthy_opt (NCBI_API_KEY env) \<longrightarrow> snd (fst (make_request env url ps rt s)) = ps)
   \<and> cache_gets (snd (make_request env url ps rt s))
       = cache_gets s @ (if has_redis env then [generate_cache_key env url (inject_api_key env ps)] else [])
   \<and> (\<exists>vs. cache_sets (snd (make_request env url ps rt s))
             = cache_sets s @ map (\<lambda>v. (generate_cache_key env url (inject_api_key env ps), v, CACHE_TTL env)) vs)"
proof -
  note fr = make_request_frame [of env url ps rt s]
  have a: "truthy_opt (NCBI_API_KEY env) \<longrightarrow>
        inject_api_key env ps = dict_set ps ''api_key'' (JStr (the (NCBI_API_KEY env)))
        \<and> map_of (snd (fst (make_request env url ps rt s))) ''api_key''
            = Some (JStr (the (NCBI_API_KEY env)))"
    using fr by (simp add: inject_api_key_def map_of_dict_set)
  have b: "\<not> truthy_opt (NCBI_API_KEY env) \<longrightarrow> snd (fst (make_request env url ps rt s)) = ps"
    using fr by (simp add: inject_api_key_def)
  show ?thesis using fr a b by blast
qed

theorem make_request_injects_api_key_witness:
  "truthy_opt (NCBI_API_KEY (keyed_env [HttpResponse 200 (Inr JNull)]))
   \<and> snd (fst (make_request (keyed_env [HttpResponse 200 (Inr JNull)]) ''u'' BASE_PARAMS ''json'' init_state))
       = [(''db'', JStr ''pubmed''), (''api_key'', JStr ''K'')]
   \<and> cache_gets (snd (make_request (keyed_env [HttpResponse 200 (Inr JNull)]) ''u'' BASE_PARAMS ''json'' init_state))
       = [generate_cache_key (keyed_env [HttpResponse 200 (Inr JNull)]) ''u''
            [(''db'', JStr ''pubmed''), (''api_key'', JStr ''K'')]]
   \<and> \<not> truthy_opt (NCBI_API_KEY (default_env [HttpResponse 200 (Inr JNull)]))
   \<and> snd (fst (make_request (default_env [HttpResponse 200 (Inr JNull)]) ''u'' BASE_PARAMS ''json'' init_state))
       = BASE_PARAMS"
proof -
  let ?e = "keyed_env [HttpResponse 200 (Inr JNull)]"
  let ?d = "default_env [HttpResponse 200 (Inr JNull)]"
  have t: "truthy_opt (NCBI_API_KEY ?e)" and hr: "has_redis ?e"
    by (simp_all add: keyed_env_def default_env_def truthy_opt_def)
  have n: "\<not> truthy_opt (NCBI_API_KEY ?d)"
    by (simp add: default_env_def truthy_opt_def)
  have ds: "dict_set BASE_PARAMS ''api_key'' (JStr (the (NCBI_API_KEY ?e)))
          = [(''db'', JStr ''pubmed''), (''api_key'', JStr ''K'')]"
    by (simp add: keyed_env_def default_env_def dict_set_def BASE_PARAMS_def)
  note k = make_request_injects_api_key [of ?e "''u''" BASE_PARAMS "''json''" init_state]
  note d = make_request_injects_api_key [of ?d "''u''" BASE_PARAMS "''json''" init_state]
  have i: "inject_api_key ?e BASE_PARAMS = [(''db'', JStr ''pubmed''), (''api_key'', JStr ''K'')]"
    using k t ds by simp
  have 1: "snd (fst (make_request ?e ''u'' BASE_PARAMS ''json'' init_state))
       = [(''db'', JStr ''pubmed''), (''api_key'', JStr ''K'')]"
    using k i by simp
  have 2: "cache_gets (snd (make_request ?e ''u'' BASE_PARAMS ''json'' init_state))
       = [generate_cache_key ?e ''u'' [(''db'', JStr ''pubmed''), (''api_key'', JStr ''K'')]]"
    using k hr i by (simp add: init_state_def)
  have 3: "snd (fst (make_request ?d ''u'' BASE_PARAMS ''json'' init_state)) = BASE_PARAMS"
    using d n by blast
  show ?thesis using t 1 2 n 3 by blast
qed

section \<open>The search term\<close>

lemma tag_at_iff:
  "tag_at s \<longleftrightarrow>
     (\<exists>t post. s = ''['' @ t @ '']'' @ post \<and> 2 \<le> length t \<and> length t \<le> 4 \<and> list_all is_ascii_letter t)"
proof
  assume "tag_at s"
  then obtain rest k where s: "s = CHR ''['' # rest" and k: "k = 2 \<or> k = 3 \<or> k = 4"
    and kl: "k < length rest" and lt: "list_all is_ascii_letter (take k rest)" and cl: "rest ! k = CHR '']''"
    by (auto simp: tag_at_def split: list.splits)
  have "rest = take k rest @ rest ! k # drop (Suc k) rest"
    using kl by (rule id_take_nth_drop)
  then have "s = ''['' @ take k rest @ '']'' @ drop (Suc k) rest"
    using s cl by simp
  moreover have "length (take k rest) = k" using kl by simp
  ultimately show "\<exists>t post. s = ''['' @ t @ '']'' @ post \<and> 2 \<le> length t \<and> length t \<le> 4
      \<and> list_all is_ascii_letter t"
    using k lt by (intro exI [of _ "take k rest"] exI [of _ "drop (Suc k) rest"]) auto
next
  assume "\<exists>t post. s = ''['' @ t @ '']'' @ post \<and> 2 \<le> length t \<and> length t \<le> 4 \<and> list_all is_ascii_letter t"
  then obtain t post where s: "s = CHR ''['' # t @ CHR '']'' # post"
    and l: "2 \<le> length t" "length t \<le> 4" and lt: "list_all is_ascii_letter t"
    by auto
  define rest where "rest = t @ CHR '']'' # post"
  have k: "length t \<in> set [2, 3, 4]" using l by auto
  have p: "length t < length rest \<and> list_all is_ascii_letter (take (length t) rest)
      \<and> rest ! length t = CHR '']''"
    using lt by (simp add: rest_def)
  have "list_ex (\<lambda>k. k < length rest \<and> list_all is_ascii_letter (take k rest) \<and> rest ! k = CHR '']'')
          [2, 3, 4]"
    unfolding list_ex_iff using k p by (rule bexI [rotated])
  then show "tag_at s"
    unfolding s tag_at_def rest_def by simp
qed

lemma re_search_tag_iff: "re_search_tag q \<longleftrightarrow> has_field_tag q"
proof (induction q)
  case Nil
  then show ?case by (simp add: has_field_tag_def)
next
  case (Cons c cs)
  have "has_field_tag (c # cs) \<longleftrightarrow> tag_at (c # cs) \<or> has_field_tag cs"
  proof
    assume "has_field_tag (c # cs)"
    then obtain pre t post where q: "c # cs = pre @ ''['' @ t @ '']'' @ post"
      and l: "2 \<le> length t" "length t \<le> 4" "list_all is_ascii_letter t"
      unfolding has_field_tag_def by blast
    show "tag_at (c # cs) \<or> has_field_tag cs"
    proof (cases pre)
      case Nil
      then have "tag_at (c # cs)" unfolding tag_at_iff using q l by auto
      then show ?thesis ..
    next
      case (Cons p pre')
      then have "cs = pre' @ ''['' @ t @ '']'' @ post" using q by simp
      then have "has_field_tag cs" unfolding has_field_tag_def using l by blast
      then show ?thesis ..
    qed
  next
    assume "tag_at (c # cs) \<or> has_field_tag cs"
    then show "has_field_tag (c # cs)"
    proof
      assume "tag_at (c # cs)"
      then obtain t post where "c # cs = [] @ ''['' @ t @ '']'' @ post"
        "2 \<le> length t" "length t \<le> 4" "list_all is_ascii_letter t"
        unfolding tag_at_iff by auto
      then show ?thesis unfolding has_field_tag_def by blast
    next
      assume "has_field_tag cs"
      then obtain pre t post where "cs = pre @ ''['' @ t @ '']'' @ post"
        and l: "2 \<le> length t" "length t \<le> 4" "list_all is_ascii_letter t"
        unfolding has_field_tag_def by blast
      then have "c # cs = (c # pre) @ ''['' @ t @ '']'' @ post" by simp
      then show ?thesis unfolding has_field_tag_def using l by blast
    qed
  qed
  with Cons.IH show ?case by simp
qed

lemma map_of_dict_set_other: "k' \<noteq> k \<Longrightarrow> map_of (dict_set d k v) k' = map_of d k'"
proof (cases "k \<in> fst ` set d")
  case True
  assume "k' \<noteq> k"
  then have "map_of (map (\<lambda>(k'', v'). if k'' = k then (k'', v) else (k'', v')) d) k' = map_of d k'"
    by (induction d) auto
  with True show ?thesis by (simp add: dict_set_def)
next
  case False
  assume "k' \<noteq> k"
  with False show ?thesis by (auto simp: dict_set_def map_add_def split: option.splits)
qed

lemma search_params_term:
  "map_of (search_params query field m sd ed) ''term'' = Some (JStr (final_query query field))"
  by (simp add: search_params_def dict_update_def BASE_PARAMS_def Let_def map_of_dict_set_other
      map_of_dict_set)

lemma inject_api_key_other: "k \<noteq> ''api_key'' \<Longrightarrow> map_of (inject_api_key env ps) k = map_of ps k"
  by (simp add: inject_api_key_def map_of_dict_set_other)

lemma search_pubmed_ids_state:
  "snd (search_pubmed_ids env query field m sd ed s)
     = snd (make_request env (EUTILS_BASE_URL env @ ''esearch.fcgi'')
              (search_params query field m sd ed) ''json'' s)"
  by (simp add: search_pubmed_ids_def split: prod.splits sum.splits)

text \<open>
  C8. The term is \<open>(query)field\<close> when a field is given (a non-empty string) and the query
  embeds no bracketed tag of two to four ASCII letters, and the query itself otherwise;
  it is the \<open>term\<close> parameter of every request the search issues.
\<close>

theorem search_term_construction:
  "final_query query field =
     (if field \<noteq> None \<and> field \<noteq> Some [] \<and> \<not> has_field_tag query
      then ''('' @ query @ '')'' @ the field
      else query)
   \<and> (\<exists>k. requests (snd (search_pubmed_ids env query field m sd ed s))
          = requests s @ replicate k (EUTILS_BASE_URL env @ ''esearch.fcgi'',
                                      inject_api_key env (search_params query field m sd ed)))
   \<and> map_of (inject_api_key env (search_params query field m sd ed)) ''term''
       = Some (JStr (final_query query field))"
proof -
  have a: "final_query query field =
     (if field \<noteq> None \<and> field \<noteq> Some [] \<and> \<not> has_field_tag query
      then ''('' @ query @ '')'' @ the field
      else query)"
    by (cases field) (simp_all add: final_query_def truthy_opt_def re_search_tag_iff)
  have b: "\<exists>k. requests (snd (search_pubmed_ids env query field m sd ed s))
          = requests s @ replicate k (EUTILS_BASE_URL env @ ''esearch.fcgi'',
                                      inject_api_key env (search_params query field m sd ed))"
    unfolding search_pubmed_ids_state
    using make_request_frame [of env "EUTILS_BASE_URL env @ ''esearch.fcgi''"
        "search_params query field m sd ed" "''json''" s]
    by blast
  have c: "map_of (inject_api_key env (search_params query field m sd ed)) ''term''
       = Some (JStr (final_query query field))"
    by (simp add: inject_api_key_other search_params_term)
  show ?thesis using a b c by blast
qed

theorem search_term_construction_witness:
  "\<not> has_field_tag ''cancer''
   \<and> final_query ''cancer'' (Some ''[AU]'') = ''(cancer)[AU]''
   \<and> has_field_tag ''lung cancer[TI]''
   \<and> final_query ''lung cancer[TI]'' (Some ''[AU]'') = ''lung cancer[TI]''
   \<and> final_query ''cancer'' None = ''cancer''"
proof -
  have n: "\<not> has_field_tag ''cancer''"
    unfolding re_search_tag_iff [symmetric] by code_simp
  have t: "has_field_tag ''lung cancer[TI]''"
    unfolding re_search_tag_iff [symmetric] by code_simp
  note th = search_term_construction [THEN conjunct1]
  have 1: "final_query ''cancer'' (Some ''[AU]'') = ''(cancer)[AU]''"
    using th [of "''cancer''" "Some ''[AU]''"] n by simp
  have 2: "final_query ''lung cancer[TI]'' (Some ''[AU]'') = ''lung cancer[TI]''"
    using th [of "''lung cancer[TI]''" "Some ''[AU]''"] t by simp
  have 3: "final_query ''cancer'' None = ''cancer''"
    using th [of "''cancer''" None] by simp
  show ?thesis using n 1 t 2 3 by blast
qed

lemma search_pubmed_ids_example:
  "search_pubmed_ids
     (default_env [HttpResponse 200 (Inr (JObj [(''esearchresult'', JObj [(''idlist'', JArr [JStr ''7''])])]))])
     ''cancer'' (Some ''[AU]'') 10 None None init_state
   = (Inr (JArr [JStr ''7'']),
      \<lparr>requests = [(''https://eutils.ncbi.nlm.nih.gov/entrez/eutils/esearch.fcgi'',
                    [(''db'', JStr ''pubmed''), (''term'', JStr ''(cancer)[AU]''), (''retmode'', JStr ''json''),
                     (''retmax'', JStr ''10''), (''sort'', JStr ''date'')])],
       sleeps = [], cache_gets = [], cache_sets = [], logs = [INFO]\<rparr>)"
  by code_simp

section \<open>The abstract\<close>

lemma abstract_part_eq:
  "abstract_part node = (if section_text node = [] then None else Some (render_section node))"
  by (cases "map_of (el_attrib node) ''Label''")
     (simp_all add: abstract_part_def section_text_def render_section_def Let_def truthy_opt_def)

lemma abstract_loop_eq:
  "abstract_loop nodes acc = acc @ map render_section (filter (\<lambda>n. section_text n \<noteq> []) nodes)"
  by (induction nodes arbitrary: acc) (simp_all add: abstract_part_eq)

lemma render_section_nonempty: "section_text n \<noteq> [] \<Longrightarrow> render_section n \<noteq> []"
  by (simp add: render_section_def split: option.splits)

lemma join_nonempty: "xs \<noteq> [] \<Longrightarrow> \<forall>x\<in>set xs. x \<noteq> [] \<Longrightarrow> join sep xs \<noteq> []"
  by (induction sep xs rule: join.induct) simp_all

text \<open>
  C5 (as amended). The abstract is made of the \<open>AbstractText\<close> sections in document order:
  a section whose trimmed text is empty is skipped, a section with a non-empty
  \<open>Label\<close> renders as \<open>**Label:** text\<close> with the label trimmed, the parts are joined by
  a blank line, and with no part left the abstract is \<open>Abstract not available.\<close>
\<close>

theorem abstract_of_spec: "abstract_of article_node = spec_abstract article_node"
proof -
  define nodes where "nodes = findall_path ''Abstract'' [''AbstractText''] article_node"
  define secs where "secs = filter (\<lambda>n. section_text n \<noteq> []) nodes"
  define joined where "joined = join [CHR 0x0A, CHR 0x0A] (map render_section secs)"
  have parts: "abstract_loop nodes [] = map render_section secs"
    by (simp add: abstract_loop_eq secs_def)
  have code: "abstract_of article_node = (if joined \<noteq> [] then joined else ''Abstract not available.'')"
    unfolding abstract_of_def Let_def nodes_def [symmetric] parts joined_def ..
  have spec: "spec_abstract article_node = (if secs = [] then ''Abstract not available.'' else joined)"
    unfolding spec_abstract_def Let_def nodes_def [symmetric] secs_def [symmetric] joined_def ..
  have "joined \<noteq> []" if "secs \<noteq> []"
  proof -
    have "\<forall>x\<in>set (map render_section secs). x \<noteq> []"
      by (auto simp: secs_def render_section_nonempty)
    moreover have "map render_section secs \<noteq> []" using that by simp
    ultimately show ?thesis unfolding joined_def by (rule join_nonempty [rotated])
  qed
  moreover have "joined = []" if "secs = []"
    using that by (simp add: joined_def)
  ultimately show ?thesis
    unfolding code spec by auto
qed

theorem abstract_of_spec_witness:
  "abstract_of (abstract_doc [(Some ''Methods'', ''We did X''), (None, ''Y'')])
     = ''**Methods:** We did X'' @ [CHR 0x0A, CHR 0x0A] @ ''Y''
   \<and> abstract_of (abstract_doc [(Some ''Methods'', ''We did X''), (None, ''  ''), (None, ''Y'')])
     = ''**Methods:** We did X'' @ [CHR 0x0A, CHR 0x0A] @ ''Y''"
proof -
  have 1: "spec_abstract (abstract_doc [(Some ''Methods'', ''We did X''), (None, ''Y'')])
     = ''**Methods:** We did X'' @ [CHR 0x0A, CHR 0x0A] @ ''Y''"
    by (simp add: spec_abstract_def section_text_def render_section_def abstract_doc_def
        findall_path_def descendants_named_def children_named_def py_strip_def py_isspace_def
        truthy_opt_def)
  have 2: "spec_abstract (abstract_doc [(Some ''Methods'', ''We did X''), (None, ''  ''), (None, ''Y'')])
     = ''**Methods:** We did X'' @ [CHR 0x0A, CHR 0x0A] @ ''Y''"
    by (simp add: spec_abstract_def section_text_def render_section_def abstract_doc_def
        findall_path_def descendants_named_def children_named_def py_strip_def py_isspace_def
        truthy_opt_def)
  show ?thesis
    using 1 2 by (simp only: abstract_of_spec simp_thms)
qed

theorem abstract_sentinel_counterexample:
  "abstract_of (abstract_doc []) = ''Abstract not available.''
   \<and> abstract_of (abstract_doc []) \<noteq> ''abstract not available.''
   \<and> abstract_of (abstract_doc [(Some [], ''Y'')]) = ''Y''
   \<and> abstract_of (abstract_doc [(Some [], ''Y'')]) \<noteq> ''**:** Y''"
proof -
  have 0: "findall_path ''Abstract'' [''AbstractText''] (abstract_doc []) = []"
    by (simp add: abstract_doc_def findall_path_def descendants_named_def children_named_def)
  have 1: "findall_path ''Abstract'' [''AbstractText''] (abstract_doc [(Some [], ''Y'')])
         = [Element ''AbstractText'' [(''Label'', [])] (Some ''Y'') [] None]"
    by (simp add: abstract_doc_def findall_path_def descendants_named_def children_named_def)
  have 2: "abstract_part (Element ''AbstractText'' [(''Label'', [])] (Some ''Y'') [] None) = Some ''Y''"
    by (simp add: abstract_part_def py_strip_def py_isspace_def truthy_opt_def)
  have a: "abstract_of (abstract_doc []) = ''Abstract not available.''"
    by (simp add: abstract_of_def 0)
  have b: "abstract_of (abstract_doc [(Some [], ''Y'')]) = ''Y''"
    by (simp add: abstract_of_def 1 2)
  show ?thesis
    unfolding a b by simp
qed

section \<open>The link of an article\<close>

lemma parse_article_link:
  assumes "parse_article env p root_node = Inr (Some a)"
  shows "link a = HttpUrl (article_link p) \<and> pmid a = p"
proof (cases "find_first (descendants_named ''PubmedArticle'' root_node)")
  case None
  with assms show ?thesis by (simp add: parse_article_def)
next
  case (Some article_node)
  with assms show ?thesis
    by (cases "valid_http_url env (article_link p)") (auto simp: parse_article_def Let_def)
qed

text \<open>
  C9. Every article \<open>fetch_article_details\<close> returns has the link built from the
  requested id, \<open>https://pubmed.ncbi.nlm.nih.gov/<id>/\<close>, whatever the environment
  and the document are.
\<close>

theorem fetch_article_details_link:
  assumes "fst (fetch_article_details env p s) = Inr (Some a)"
  shows "link a = HttpUrl (''https://pubmed.ncbi.nlm.nih.gov/'' @ p @ ''/'') \<and> pmid a = p"
proof -
  let ?url = "EUTILS_BASE_URL env @ ''efetch.fcgi''"
  let ?ps = "dict_update BASE_PARAMS [(''id'', JStr p), (''retmode'', JStr ''xml''), (''rettype'', JStr ''abstract'')]"
  obtain r ps' s1 where mr: "make_request env ?url ?ps ''text'' s = ((r, ps'), s1)"
    by (cases "make_request env ?url ?ps ''text'' s") auto
  have ex: "fst (details_except e s') \<noteq> Inr (Some a)" for e s'
    by (simp add: details_except_def)
  show ?thesis
  proof (cases r)
    case (Inl e)
    with assms mr ex [of e s1] show ?thesis
      by (simp add: fetch_article_details_def Let_def)
  next
    case (Inr xml_data)
    show ?thesis
    proof (cases "truthy xml_data")
      case False
      with assms mr Inr show ?thesis
        by (simp add: fetch_article_details_def Let_def)
    next
      case True
      let ?parsed = "bind_exn (case xml_data of JStr t \<Rightarrow> xml_fromstring env t | _ \<Rightarrow> Inl TypeError)
                       (parse_article env p)"
      show ?thesis
      proof (cases ?parsed)
        case (Inl e)
        with assms mr Inr True ex [of e s1] show ?thesis
          by (simp add: fetch_article_details_def Let_def)
      next
        case (Inr res)
        with assms mr \<open>r = Inr xml_data\<close> True have res: "res = Some a"
          by (simp add: fetch_article_details_def Let_def)
        from Inr obtain root_node where "parse_article env p root_node = Inr res"
          by (auto simp: bind_exn_def split: sum.splits)
        with res show ?thesis
          using parse_article_link [of env p root_node a] by (simp add: article_link_def)
      qed
    qed
  qed
qed

theorem fetch_article_details_link_witness:
  "fst (fetch_article_details xml_env ''123'' init_state)
     = Inr (Some \<lparr>pmid = ''123'', title = ''Foo bar baz'', pub_date = ''2020'', journal = ''J'',
                   authors = [''Doe J'', []],
                   abstract = ''**Methods:** We did X'' @ [CHR 0x0A, CHR 0x0A] @ ''Y'',
                   mesh_terms = [''Humans''], doi = Some ''10.1/x'',
                   link = HttpUrl ''https://pubmed.ncbi.nlm.nih.gov/123/'',
                   volume = Some ''5'', issue = Some ''2'', pages = Some ''10-20''\<rparr>)"
proof -
  have mr: "make_request xml_env (EUTILS_BASE_URL xml_env @ ''efetch.fcgi'')
              (dict_update BASE_PARAMS [(''id'', JStr ''123''), (''retmode'', JStr ''xml''), (''rettype'', JStr ''abstract'')])
              ''text'' init_state
          = ((Inr (JStr ''<PubmedArticleSet/>''),
              [(''db'', JStr ''pubmed''), (''id'', JStr ''123''), (''retmode'', JStr ''xml''), (''rettype'', JStr ''abstract'')]),
             \<lparr>requests = [(''https://eutils.ncbi.nlm.nih.gov/entrez/eutils/efetch.fcgi'',
                  [(''db'', JStr ''pubmed''), (''id'', JStr ''123''), (''retmode'', JStr ''xml''), (''rettype'', JStr ''abstract'')])],
               sleeps = [], cache_gets = [], cache_sets = [], logs = [INFO]\<rparr>)"
    by (simp add: make_request_def xml_env_def default_env_def init_state_def inject_api_key_def
        truthy_opt_def cache_lookup_def generate_cache_key_def MAX_RETRIES_def upt_conv_Cons
        attempt_request_def cache_store_def script_outcome_def log_msg_def dict_update_def
        dict_set_def BASE_PARAMS_def Let_def)
  have pa: "parse_article xml_env ''123'' sample_doc
     = Inr (Some \<lparr>pmid = ''123'', title = ''Foo bar baz'', pub_date = ''2020'', journal = ''J'',
                   authors = [''Doe J'', []],
                   abstract = ''**Methods:** We did X'' @ [CHR 0x0A, CHR 0x0A] @ ''Y'',
                   mesh_terms = [''Humans''], doi = Some ''10.1/x'',
                   link = HttpUrl ''https://pubmed.ncbi.nlm.nih.gov/123/'',
                   volume = Some ''5'', issue = Some ''2'', pages = Some ''10-20''\<rparr>)"
    by (simp add: parse_article_def sample_doc_def xml_env_def default_env_def find_first_def
        findall_path_def descendants_named_def children_named_def findtext_str_def findtext_opt_def
        findtext_def abstract_of_def abstract_part_def article_link_def py_strip_def py_isspace_def
        truthy_opt_def)
  have xf: "xml_fromstring xml_env ''<PubmedArticleSet/>'' = Inr sample_doc"
    by (simp add: xml_env_def)
  have f: "fetch_article_details xml_env ''123'' init_state
         = (Inr (Some \<lparr>pmid = ''123'', title = ''Foo bar baz'', pub_date = ''2020'', journal = ''J'',
                   authors = [''Doe J'', []],
                   abstract = ''**Methods:** We did X'' @ [CHR 0x0A, CHR 0x0A] @ ''Y'',
                   mesh_terms = [''Humans''], doi = Some ''10.1/x'',
                   link = HttpUrl ''https://pubmed.ncbi.nlm.nih.gov/123/'',
                   volume = Some ''5'', issue = Some ''2'', pages = Some ''10-20''\<rparr>),
            \<lparr>requests = [(''https://eutils.ncbi.nlm.nih.gov/entrez/eutils/efetch.fcgi'',
                  [(''db'', JStr ''pubmed''), (''id'', JStr ''123''), (''retmode'', JStr ''xml''), (''rettype'', JStr ''abstract'')])],
               sleeps = [], cache_gets = [], cache_sets = [], logs = [INFO]\<rparr>)"
    unfolding fetch_article_details_def Let_def mr
    by (simp add: xf pa bind_exn_def)
  have "link \<lparr>pmid = ''123'', title = ''Foo bar baz'', pub_date = ''2020'', journal = ''J'',
                   authors = [''Doe J'', []],
                   abstract = ''**Methods:** We did X'' @ [CHR 0x0A, CHR 0x0A] @ ''Y'',
                   mesh_terms = [''Humans''], doi = Some ''10.1/x'',
                   link = HttpUrl ''https://pubmed.ncbi.nlm.nih.gov/123/'',
                   volume = Some ''5'', issue = Some ''2'', pages = Some ''10-20''\<rparr>
        = HttpUrl (''https://pubmed.ncbi.nlm.nih.gov/'' @ ''123'' @ ''/'')"
    using fetch_article_details_link [of xml_env "''123''" init_state, OF f [THEN arg_cong [where f = fst], simplified fst_conv]]
    by blast
  with f show ?thesis by simp
qed

section \<open>Exceptions that reach the caller\<close>

lemmas run_defs =
  make_request_def default_env_def init_state_def inject_api_key_def truthy_opt_def
  cache_lookup_def generate_cache_key_def MAX_RETRIES_def upt_conv_Cons attempt_request_def
  cache_store_def script_outcome_def log_msg_def dict_update_def dict_set_def BASE_PARAMS_def
  Let_def bind_exn_def

lemma find_related_ids_no_linksets:
  assumes "fst (fst (make_request env (EUTILS_BASE_URL env @ ''elink.fcgi'')
                   (dict_update BASE_PARAMS
                      [(''id'', JStr source_pmid), (''linkname'', JStr ''pubmed_pubmed''),
                       (''cmd'', JStr ''neighbor_history'')]) ''json'' s)) = Inr data"
    and "\<not> truthy data
         \<or> (\<exists>kvs. data = JObj kvs
                \<and> \<not> truthy (case map_of kvs ''linksets'' of Some v \<Rightarrow> v | None \<Rightarrow> JNull))"
  shows "find_related_ids env source_pmid max_results s =
           (Inr (JArr []),
            snd (make_request env (EUTILS_BASE_URL env @ ''elink.fcgi'')
                   (dict_update BASE_PARAMS
                      [(''id'', JStr source_pmid), (''linkname'', JStr ''pubmed_pubmed''),
                       (''cmd'', JStr ''neighbor_history'')]) ''json'' s))"
  using assms
  by (auto simp: find_related_ids_def Let_def bind_exn_def split: prod.splits sum.splits)

text \<open>
  C4. An \<open>elink\<close> answer whose first linkset has no \<open>linksetdbs\<close> entry, or an empty
  one, makes \<open>find_related_ids\<close> raise \<open>KeyError\<close> or \<open>IndexError\<close>.
\<close>

theorem find_related_ids_missing_linksetdbs:
  "fst (find_related_ids
          (default_env [HttpResponse 200 (Inr (JObj [(''linksets'',
              JArr [JObj [(''dbfrom'', JStr ''pubmed''), (''webenv'', JStr ''W''),
                          (''linksetdbhistories'', JArr [JObj [(''querykey'', JStr ''1'')]])]])]))])
          ''123'' 10 init_state) = Inl KeyError
   \<and> fst (find_related_ids
          (default_env [HttpResponse 200 (Inr (JObj [(''linksets'',
              JArr [JObj [(''webenv'', JStr ''W''), (''linksetdbs'', JArr [])]])]))])
          ''123'' 10 init_state) = Inl IndexError"
  by (simp add: find_related_ids_def linkset_handles_def run_defs)

text \<open>
  C2. A GET that ends in \<open>asyncio.TimeoutError\<close> is not caught by
  \<open>except aiohttp.ClientError\<close>: the exception leaves \<open>_make_request\<close> and each of the
  five operations. A 200 answer whose JSON is not an object makes \<open>search_pubmed_ids\<close>
  raise \<open>AttributeError\<close>.
\<close>

theorem exceptions_reach_the_caller:
  "fst (fst (make_request (default_env [HttpRaise TimeoutError]) ''u'' [] ''json'' init_state)) = Inl TimeoutError
   \<and> fst (search_pubmed_ids (default_env [HttpRaise TimeoutError]) ''cancer'' None 10 None None init_state)
       = Inl TimeoutError
   \<and> fst (check_spelling (default_env [HttpRaise TimeoutError]) ''cancer'' init_state) = Inl TimeoutError
   \<and> fst (get_summaries (default_env [HttpRaise TimeoutError]) [''123''] init_state) = Inl TimeoutError
   \<and> fst (find_related_ids (default_env [HttpRaise TimeoutError]) ''123'' 10 init_state) = Inl TimeoutError
   \<and> fst (fetch_article_details (default_env [HttpRaise TimeoutError]) ''123'' init_state) = Inl TimeoutError
   \<and> fst (search_pubmed_ids (default_env [HttpResponse 200 (Inr (JArr [JStr ''error'']))])
            ''cancer'' None 10 None None init_state) = Inl AttributeError"
  by (simp add: search_pubmed_ids_def check_spelling_def get_summaries_def find_related_ids_def
      fetch_article_details_def details_except_def search_params_def final_query_def idlist_of_def
      run_defs)

section \<open>Summaries\<close>

lemma summaries_loop_eq:
  assumes "list_all hashable uids"
    and "list_all (\<lambda>info. valid_record info \<or> rejected_record info) (listed_records result uids)"
  shows "summaries_loop result uids acc s =
           (Inr (acc @ summaries_of (listed_records result uids)),
            s\<lparr>logs := logs s @ replicate (length (filter rejected_record (listed_records result uids))) WARNING\<rparr>)"
  using assms
proof (induction uids arbitrary: acc s)
  case Nil
  then show ?case by (simp add: listed_records_def summaries_of_def List.map_filter_simps)
next
  case (Cons uid uids)
  have h: "list_all hashable uids" using Cons.prems(1) by simp
  show ?case
  proof (cases "record_of result uid")
    case None
    then have lr: "listed_records result (uid # uids) = listed_records result uids"
      by (simp add: listed_records_def List.map_filter_simps)
    have "py_in_dict uid result = Inr False"
      using None Cons.prems(1)
      by (cases uid) (auto simp: record_of_def hashable_def map_of_eq_None_iff)
    then show ?thesis
      using Cons.IH [OF h, of acc s] Cons.prems(2) by (simp add: lr)
  next
    case (Some info)
    then obtain k where uid: "uid = JStr k" and mk: "map_of result k = Some info"
      by (cases uid) (auto simp: record_of_def)
    have lr: "listed_records result (uid # uids) = info # listed_records result uids"
      using Some by (simp add: listed_records_def List.map_filter_simps)
    have kin: "k \<in> fst ` set result"
      using map_of_SomeD [OF mk] by force
    have pin: "py_in_dict uid result = Inr True"
      using kin by (simp add: uid)
    have step: "summaries_loop result (uid # uids) acc s =
        (case summary_of_info info of
           Inr summary \<Rightarrow> summaries_loop result uids (acc @ [summary]) s
         | Inl e \<Rightarrow>
             if e = ValidationError then summaries_loop result uids acc (log_msg WARNING s)
             else (Inl e, s))"
      using pin by (simp add: uid mk bind_exn_def)
    have rest: "list_all (\<lambda>info. valid_record info \<or> rejected_record info) (listed_records result uids)"
      and this_one: "valid_record info \<or> rejected_record info"
      using Cons.prems(2) by (simp_all add: lr)
    from this_one show ?thesis
    proof
      assume "valid_record info"
      then obtain x where x: "summary_of_info info = Inr x"
        by (auto simp: valid_record_def split: sum.splits)
      then have nr: "\<not> rejected_record info" by (simp add: rejected_record_def)
      have so: "summaries_of (info # listed_records result uids) = x # summaries_of (listed_records result uids)"
        by (simp add: summaries_of_def List.map_filter_simps x)
      show ?thesis
        unfolding step using Cons.IH [OF h rest, of "acc @ [x]" s]
        by (simp add: x lr so nr)
    next
      assume rj: "rejected_record info"
      then have x: "summary_of_info info = Inl ValidationError" by (simp add: rejected_record_def)
      have so: "summaries_of (info # listed_records result uids) = summaries_of (listed_records result uids)"
        by (simp add: summaries_of_def List.map_filter_simps x)
      show ?thesis
        unfolding step using Cons.IH [OF h rest, of acc "log_msg WARNING s"]
        by (simp add: x lr so rj log_msg_def)
    qed
  qed
qed

text \<open>
  C7 (as amended). The empty id list gives the empty list and leaves the state as it is.
  For an answer whose \<open>result\<close> lists uids, when no listed record raises anything but a
  validation error, the summaries are those of the listed records that pass validation, in
  the order of the list, and one warning is logged for each record that fails it.
\<close>

theorem get_summaries_robust:
  "get_summaries env [] s = (Inr [], s)
   \<and> (pmids \<noteq> []
       \<and> fst (fst (make_request env (EUTILS_BASE_URL env @ ''esummary.fcgi'')
                      (dict_update BASE_PARAMS [(''id'', JStr (join '','' pmids)), (''retmode'', JStr ''json'')])
                      ''json'' s)) = Inr (JObj payload)
       \<and> map_of payload ''result'' = Some (JObj result)
       \<and> map_of result ''uids'' = Some (JArr uids)
       \<and> list_all hashable uids
       \<and> list_all (\<lambda>info. valid_record info \<or> rejected_record info) (listed_records result uids)
      \<longrightarrow> fst (get_summaries env pmids s) = Inr (summaries_of (listed_records result uids))
        \<and> logs (snd (get_summaries env pmids s))
            = logs (snd (make_request env (EUTILS_BASE_URL env @ ''esummary.fcgi'')
                      (dict_update BASE_PARAMS [(''id'', JStr (join '','' pmids)), (''retmode'', JStr ''json'')])
                      ''json'' s))
              @ replicate (length (filter rejected_record (listed_records result uids))) WARNING)"
proof -
  let ?mr = "make_request env (EUTILS_BASE_URL env @ ''esummary.fcgi'')
               (dict_update BASE_PARAMS [(''id'', JStr (join '','' pmids)), (''retmode'', JStr ''json'')])
               ''json'' s"
  have a: "get_summaries env [] s = (Inr [], s)"
    by (simp add: get_summaries_def)
  have b: "fst (get_summaries env pmids s) = Inr (summaries_of (listed_records result uids))
        \<and> logs (snd (get_summaries env pmids s))
            = logs (snd ?mr) @ replicate (length (filter rejected_record (listed_records result uids))) WARNING"
    if ne: "pmids \<noteq> []" and mr: "fst (fst ?mr) = Inr (JObj payload)"
      and pr: "map_of payload ''result'' = Some (JObj result)"
      and ru: "map_of result ''uids'' = Some (JArr uids)"
      and hs: "list_all hashable uids"
      and vr: "list_all (\<lambda>info. valid_record info \<or> rejected_record info) (listed_records result uids)"
  proof -
    obtain ps' s1 where m: "?mr = ((Inr (JObj payload), ps'), s1)"
      using mr by (cases ?mr) auto
    have pin: "''result'' \<in> fst ` set payload"
      using map_of_SomeD [OF pr] by force
    then have pne: "payload \<noteq> []" by auto
    have g: "get_summaries env pmids s = summaries_loop result uids [] s1"
      using ne pin pne by (simp add: get_summaries_def Let_def m pr ru)
    show ?thesis
      unfolding g summaries_loop_eq [OF hs vr] m by simp
  qed
  show ?thesis using a b by blast
qed

lemmas summary_defs =
  summary_of_info_def new_ArticleSummary_def summary_record_def summary_result_def bind_exn_def

theorem get_summaries_robust_witness:
  "fst (get_summaries
          (default_env [HttpResponse 200 (Inr (summary_payload
             (JObj [(''uid'', JStr ''4''), (''title'', JNull), (''pubdate'', JStr ''2020''),
                    (''source'', JStr ''J''), (''authors'', JArr [])])))])
          [''1'', ''2'', ''3'', ''4''] init_state)
     = Inr [summary_result ''1'', summary_result ''2'', summary_result ''3'']
   \<and> logs (snd (get_summaries
          (default_env [HttpResponse 200 (Inr (summary_payload
             (JObj [(''uid'', JStr ''4''), (''title'', JNull), (''pubdate'', JStr ''2020''),
                    (''source'', JStr ''J''), (''authors'', JArr [])])))])
          [''1'', ''2'', ''3'', ''4''] init_state))
     = [INFO, WARNING]"
proof -
  define fourth where "fourth = JObj [(''uid'', JStr ''4''), (''title'', JNull), (''pubdate'', JStr ''2020''),
                    (''source'', JStr ''J''), (''authors'', JArr [])]"
  define result where "result = [(''uids'', JArr [JStr ''1'', JStr ''2'', JStr ''3'', JStr ''4'']),
                  (''1'', summary_record ''1''), (''2'', summary_record ''2''),
                  (''3'', summary_record ''3''), (''4'', fourth)]"
  define e where "e = default_env [HttpResponse 200 (Inr (JObj [(''result'', JObj result)]))]"
  let ?uids = "[JStr ''1'', JStr ''2'', JStr ''3'', JStr ''4'']"
  let ?pmids = "[''1'', ''2'', ''3'', ''4'']"
  let ?mr = "make_request e (EUTILS_BASE_URL e @ ''esummary.fcgi'')
               (dict_update BASE_PARAMS [(''id'', JStr (join '','' ?pmids)), (''retmode'', JStr ''json'')])
               ''json'' init_state"
  have mr: "fst (fst ?mr) = Inr (JObj [(''result'', JObj result)])" and lg: "logs (snd ?mr) = [INFO]"
    by (simp_all add: e_def run_defs)
  have ne: "?pmids \<noteq> []" by simp
  have pr: "map_of [(''result'', JObj result)] ''result'' = Some (JObj result)" by simp
  have ru: "map_of result ''uids'' = Some (JArr ?uids)" by (simp add: result_def)
  have hs: "list_all hashable ?uids" by (simp add: hashable_def)
  have lr: "listed_records result ?uids
          = [summary_record ''1'', summary_record ''2'', summary_record ''3'', fourth]"
    by (simp add: listed_records_def record_of_def result_def List.map_filter_simps)
  have v: "summary_of_info (summary_record ''1'') = Inr (summary_result ''1'')"
    "summary_of_info (summary_record ''2'') = Inr (summary_result ''2'')"
    "summary_of_info (summary_record ''3'') = Inr (summary_result ''3'')"
    "summary_of_info fourth = Inl ValidationError"
    by (simp_all add: summary_defs fourth_def)
  have vr: "list_all (\<lambda>info. valid_record info \<or> rejected_record info) (listed_records result ?uids)"
    by (simp add: lr valid_record_def rejected_record_def v)
  have so: "summaries_of (listed_records result ?uids)
          = [summary_result ''1'', summary_result ''2'', summary_result ''3'']"
    by (simp add: lr summaries_of_def List.map_filter_simps v)
  have rj: "filter rejected_record (listed_records result ?uids) = [fourth]"
    by (simp add: lr rejected_record_def v)
  have "fst (get_summaries e ?pmids init_state) = Inr (summaries_of (listed_records result ?uids))
        \<and> logs (snd (get_summaries e ?pmids init_state))
            = logs (snd ?mr) @ replicate (length (filter rejected_record (listed_records result ?uids))) WARNING"
    using get_summaries_robust [of e init_state ?pmids "[(''result'', JObj result)]" result ?uids,
        THEN conjunct2, THEN mp, OF conjI [OF ne conjI [OF mr conjI [OF pr conjI [OF ru conjI [OF hs vr]]]]]]
    .
  then show ?thesis
    unfolding so rj lg by (simp add: e_def result_def fourth_def summary_payload_def)
qed

theorem get_summaries_missing_field_counterexample:
  "fst (get_summaries
          (default_env [HttpResponse 200 (Inr (summary_payload
             (JObj [(''uid'', JStr ''4''), (''pubdate'', JStr ''2020''), (''source'', JStr ''J'')])))])
          [''1'', ''2'', ''3'', ''4''] init_state)
     = Inr [summary_result ''1'', summary_result ''2'', summary_result ''3'',
            \<lparr>pmid = ''4'', title = ''No Title'', pub_date = ''2020'', journal = ''J'', authors = []\<rparr>]
   \<and> logs (snd (get_summaries
          (default_env [HttpResponse 200 (Inr (summary_payload
             (JObj [(''uid'', JStr ''4''), (''pubdate'', JStr ''2020''), (''source'', JStr ''J'')])))])
          [''1'', ''2'', ''3'', ''4''] init_state))
     = [INFO]"
  by (simp add: get_summaries_def summary_payload_def summary_defs run_defs)

end
